theory Spec2Isabelle
  imports Complex_Main "HOL-Library.Sublist" "HOL-Library.AList"
begin

section \<open>JavaScript strings and JSON values\<close>

text \<open>
  A JavaScript string is a sequence of UTF-16 code units; \<open>length\<close> counts code units, as
  \<^verbatim>\<open>String.prototype.length\<close> does. ASCII literals are written \<open>js ''...''\<close>, the
  fixed non-ASCII parts of the messages are written as code-unit lists.
\<close>

type_synonym jsstring = "nat list"

definition js :: "string \<Rightarrow> jsstring" where
  "js s = map of_char s"

text \<open>The character class \<^verbatim>\<open>\s\<close> of ECMAScript (white space and line terminators); it is
  also the set that \<^verbatim>\<open>String.prototype.trim\<close> removes.\<close>

definition is_space :: "nat \<Rightarrow> bool" where
  "is_space c \<longleftrightarrow> c \<in> {0x09, 0x0A, 0x0B, 0x0C, 0x0D, 0x20, 0xA0, 0x1680, 0x2028, 0x2029,
      0x202F, 0x205F, 0x3000, 0xFEFF} \<or> (0x2000 \<le> c \<and> c \<le> 0x200A)"

text \<open>\<^verbatim>\<open>[A-Za-z]\<close>\<close>

definition is_alpha :: "nat \<Rightarrow> bool" where
  "is_alpha c \<longleftrightarrow> (0x41 \<le> c \<and> c \<le> 0x5A) \<or> (0x61 \<le> c \<and> c \<le> 0x7A)"

text \<open>\<^verbatim>\<open>.\<close> without the \<^verbatim>\<open>s\<close> flag: any code unit but a line terminator.\<close>

definition is_dot :: "nat \<Rightarrow> bool" where
  "is_dot c \<longleftrightarrow> c \<notin> {0x0A, 0x0D, 0x2028, 0x2029}"

definition trim :: "jsstring \<Rightarrow> jsstring" where
  "trim s = rev (dropWhile is_space (rev (dropWhile is_space s)))"

text \<open>
  A number of the program is an IEEE double that came out of \<^verbatim>\<open>JSON.parse\<close>: a finite
  double is the rational it denotes, \<^verbatim>\<open>1e999\<close> parses to \<^verbatim>\<open>Infinity\<close>, and NaN cannot occur.
  The comparisons of the program are against 1, 600, 0.5 and 6, which are exact.
\<close>

datatype jsnum = Fin rat | PosInf | NegInf

fun num_lt :: "jsnum \<Rightarrow> jsnum \<Rightarrow> bool" where
  "num_lt (Fin a) (Fin b) = (a < b)"
| "num_lt NegInf NegInf = False"
| "num_lt NegInf _ = True"
| "num_lt _ NegInf = False"
| "num_lt PosInf _ = False"
| "num_lt _ PosInf = True"

datatype json =
    JNull
  | JBool bool
  | JNum jsnum
  | JStr jsstring
  | JArr "json list"
  | JObj "(jsstring \<times> json) list"

text \<open>
  \<open>JObj kvs\<close> lists the own properties of a parsed object in the order in which
  \<^verbatim>\<open>Object.entries\<close> enumerates them. A value of type \<open>json option\<close> is the result of
  a property read: \<open>None\<close> is \<^verbatim>\<open>undefined\<close>.
\<close>

datatype js_error = TypeError

text \<open>
  \<^verbatim>\<open>x.p\<close> for the property names the validators read (\<^verbatim>\<open>hooks\<close>, \<^verbatim>\<open>matcher\<close>,
  \<^verbatim>\<open>type\<close>, \<^verbatim>\<open>command\<close>, \<^verbatim>\<open>timeout\<close>, \<^verbatim>\<open>agents\<close>): none of them is a property of
  the prototypes of booleans, numbers, strings, arrays or objects. Reading a property of
  \<^verbatim>\<open>null\<close> throws.
\<close>

fun get_prop :: "json \<Rightarrow> jsstring \<Rightarrow> js_error + json option" where
  "get_prop JNull p = Inl TypeError"
| "get_prop (JObj kvs) p = Inr (map_of kvs p)"
| "get_prop _ p = Inr None"

fun truthy :: "json option \<Rightarrow> bool" where
  "truthy None = False"
| "truthy (Some JNull) = False"
| "truthy (Some (JBool b)) = b"
| "truthy (Some (JNum n)) = (n \<noteq> Fin 0)"
| "truthy (Some (JStr s)) = (s \<noteq> [])"
| "truthy (Some (JArr xs)) = True"
| "truthy (Some (JObj kvs)) = True"

datatype jstype = TUndefined | TObject | TBoolean | TNumber | TString

fun typeof :: "json option \<Rightarrow> jstype" where
  "typeof None = TUndefined"
| "typeof (Some JNull) = TObject"
| "typeof (Some (JBool b)) = TBoolean"
| "typeof (Some (JNum n)) = TNumber"
| "typeof (Some (JStr s)) = TString"
| "typeof (Some (JArr xs)) = TObject"
| "typeof (Some (JObj kvs)) = TObject"

fun type_name :: "jstype \<Rightarrow> jsstring" where
  "type_name TUndefined = js ''undefined''"
| "type_name TObject = js ''object''"
| "type_name TBoolean = js ''boolean''"
| "type_name TNumber = js ''number''"
| "type_name TString = js ''string''"

fun is_array :: "json option \<Rightarrow> bool" where
  "is_array (Some (JArr xs)) = True"
| "is_array _ = False"

fun the_str :: "json option \<Rightarrow> jsstring" where
  "the_str (Some (JStr s)) = s"
| "the_str _ = []"

fun the_num :: "json option \<Rightarrow> jsnum" where
  "the_num (Some (JNum n)) = n"
| "the_num _ = Fin 0"

fun the_arr :: "json option \<Rightarrow> json list" where
  "the_arr (Some (JArr xs)) = xs"
| "the_arr _ = []"

subsection \<open>Conversion to strings\<close>

fun show_nat :: "nat \<Rightarrow> jsstring" where
  "show_nat n = (if n < 10 then [0x30 + n] else show_nat (n div 10) @ [0x30 + n mod 10])"

declare show_nat.simps [simp del]

text \<open>
  \<^verbatim>\<open>Number::toString\<close>. An integer of magnitude at most \<open>2^53\<close> prints as its decimal
  digits. The digit strings the language prints for the other finite doubles are not
  modelled: they are the parameter \<open>ns\<close>.
\<close>

definition number_to_string :: "(rat \<Rightarrow> jsstring) \<Rightarrow> jsnum \<Rightarrow> jsstring" where
  "number_to_string ns n =
     (case n of
        PosInf \<Rightarrow> js ''Infinity''
      | NegInf \<Rightarrow> js ''-Infinity''
      | Fin q \<Rightarrow>
          if of_int \<lfloor>q\<rfloor> = q \<and> \<bar>q\<bar> \<le> 9007199254740992
          then (if q < 0 then js ''-'' else []) @ show_nat (nat \<bar>\<lfloor>q\<rfloor>\<bar>)
          else ns q)"

fun join :: "jsstring \<Rightarrow> jsstring list \<Rightarrow> jsstring" where
  "join sep [] = []"
| "join sep [x] = x"
| "join sep (x # y # ys) = x @ sep @ join sep (y # ys)"

text \<open>
  The conversion to a string that a template literal applies to a value. A parsed object
  is converted by the \<^verbatim>\<open>toString\<close> it inherits, unless it has a property of that name
  of its own: the value of that property is parsed data and cannot be called, the
  \<^verbatim>\<open>valueOf\<close> of the object, its own or inherited, gives no primitive either, and the
  conversion throws. An array joins the conversions of its elements, \<^verbatim>\<open>null\<close> giving
  the empty string, and throws where one of them throws.
\<close>

fun to_string :: "(rat \<Rightarrow> jsstring) \<Rightarrow> json \<Rightarrow> js_error + jsstring"
  and elements_to_strings :: "(rat \<Rightarrow> jsstring) \<Rightarrow> json list \<Rightarrow> js_error + jsstring list" where
  "to_string ns JNull = Inr (js ''null'')"
| "to_string ns (JBool b) = Inr (if b then js ''true'' else js ''false'')"
| "to_string ns (JNum n) = Inr (number_to_string ns n)"
| "to_string ns (JStr s) = Inr s"
| "to_string ns (JArr xs) =
     (case elements_to_strings ns xs of
        Inl e \<Rightarrow> Inl e
      | Inr ss \<Rightarrow> Inr (join (js '','') ss))"
| "to_string ns (JObj kvs) =
     (if map_of kvs (js ''toString'') \<noteq> None then Inl TypeError
      else Inr (js ''[object Object]''))"
| "elements_to_strings ns [] = Inr []"
| "elements_to_strings ns (x # xs) =
     (case (if x = JNull then Inr [] else to_string ns x) of
        Inl e \<Rightarrow> Inl e
      | Inr s \<Rightarrow>
          (case elements_to_strings ns xs of
             Inl e \<Rightarrow> Inl e
           | Inr ss \<Rightarrow> Inr (s # ss)))"

definition to_string_opt :: "(rat \<Rightarrow> jsstring) \<Rightarrow> json option \<Rightarrow> js_error + jsstring" where
  "to_string_opt ns v = (case v of None \<Rightarrow> Inr (js ''undefined'') | Some x \<Rightarrow> to_string ns x)"

text \<open>\<^verbatim>\<open>Object.entries\<close> of an object or an array (whose keys are its indices).\<close>

fun object_entries :: "json \<Rightarrow> (jsstring \<times> json) list" where
  "object_entries (JObj kvs) = kvs"
| "object_entries (JArr xs) = zip (map show_nat [0..<length xs]) xs"
| "object_entries _ = []"

section \<open>Regular expressions anchored at both ends\<close>

text \<open>
  The patterns of \<^verbatim>\<open>validateMatcher\<close> are anchored with \<^verbatim>\<open>^\<close> and \<^verbatim>\<open>$\<close>, carry no flag
  and use classes, concatenation, \<^verbatim>\<open>+\<close> and \<^verbatim>\<open>*\<close> only, so \<^verbatim>\<open>test\<close> decides
  membership of the whole string in a regular language. \<open>rx_test\<close> decides it with
  derivatives.
\<close>

datatype rx =
    Nul
  | Eps
  | Cls "nat \<Rightarrow> bool"
  | Alt rx rx
  | Seq rx rx
  | Star rx

definition Lit :: "nat \<Rightarrow> rx" where
  "Lit c = Cls (\<lambda>x. x = c)"

definition Plus :: "rx \<Rightarrow> rx" where
  "Plus r = Seq r (Star r)"

fun nullable :: "rx \<Rightarrow> bool" where
  "nullable Nul = False"
| "nullable Eps = True"
| "nullable (Cls p) = False"
| "nullable (Alt r s) = (nullable r \<or> nullable s)"
| "nullable (Seq r s) = (nullable r \<and> nullable s)"
| "nullable (Star r) = True"

fun deriv :: "nat \<Rightarrow> rx \<Rightarrow> rx" where
  "deriv c Nul = Nul"
| "deriv c Eps = Nul"
| "deriv c (Cls p) = (if p c then Eps else Nul)"
| "deriv c (Alt r s) = Alt (deriv c r) (deriv c s)"
| "deriv c (Seq r s) =
     (if nullable r then Alt (Seq (deriv c r) s) (deriv c s) else Seq (deriv c r) s)"
| "deriv c (Star r) = Seq (deriv c r) (Star r)"

fun rx_test :: "rx \<Rightarrow> jsstring \<Rightarrow> bool" where
  "rx_test r [] = nullable r"
| "rx_test r (c # cs) = rx_test (deriv c r) cs"

section \<open>The hook validator\<close>

subsection \<open>Configuration\<close>

definition CONFIG_timeout_min :: rat where
  "CONFIG_timeout_min = 1"

definition CONFIG_timeout_max :: rat where
  "CONFIG_timeout_max = 600"

definition CONFIG_timeout_recommended :: "(jsstring \<times> rat) list" where
  "CONFIG_timeout_recommended =
     [(js ''PreToolUse'', 5), (js ''PostToolUse'', 60), (js ''SessionStart'', 5),
      (js ''SessionEnd'', 5)]"

definition CONFIG_validLifecycles :: "jsstring list" where
  "CONFIG_validLifecycles =
     [js ''PreToolUse'', js ''PostToolUse'', js ''Notification'', js ''Stop'',
      js ''SessionEnd'', js ''SessionStart'', js ''PreCompact'', js ''Setup'']"

definition CONFIG_validHookTypes :: "jsstring list" where
  "CONFIG_validHookTypes = [js ''command'']"

subsection \<open>Messages\<close>

definition msg_matcher_empty :: jsstring where
  "msg_matcher_empty = js ''matcher '' @ [0x4E0D, 0x80FD, 0x4E3A, 0x7A7A]"

definition msg_matcher_syntax :: jsstring where
  "msg_matcher_syntax = js ''matcher '' @ [0x8BED, 0x6CD5, 0x53EF, 0x80FD, 0x4E0D, 0x6B63, 0x786E]"

definition msg_timeout_unset :: jsstring where
  "msg_timeout_unset =
     [0x672A, 0x8BBE, 0x7F6E] @ js '' timeout'' @ [0xFF0C, 0x5C06, 0x4F7F, 0x7528, 0x9ED8, 0x8BA4, 0x503C]"

definition msg_timeout_positive :: "jsstring \<Rightarrow> jsstring" where
  "msg_timeout_positive cur =
     js ''timeout '' @ [0x5FC5, 0x987B, 0x662F, 0x6B63, 0x6570, 0xFF08, 0x5F53, 0x524D] @ js '': ''
       @ cur @ [0xFF09]"

definition msg_timeout_max :: "jsstring \<Rightarrow> jsstring \<Rightarrow> jsstring" where
  "msg_timeout_max mx cur =
     js ''timeout '' @ [0x8D85, 0x8FC7, 0x6700, 0x5927, 0x503C] @ js '' '' @ mx
       @ js ''s'' @ [0xFF08, 0x5F53, 0x524D] @ js '': '' @ cur @ js ''s'' @ [0xFF09]"

definition msg_timeout_short :: "jsstring \<Rightarrow> jsstring \<Rightarrow> jsstring" where
  "msg_timeout_short cur rec =
     js ''timeout '' @ [0x53EF, 0x80FD, 0x8FC7, 0x77ED, 0xFF08, 0x5F53, 0x524D] @ js '': '' @ cur
       @ js ''s'' @ [0xFF0C, 0x5EFA, 0x8BAE] @ js '': '' @ rec @ js ''s'' @ [0xFF09]"

subsection \<open>validateMatcher\<close>

datatype pattern = PString jsstring | PRegex rx

text \<open>
  \<^verbatim>\<open>"*"\<close>, \<^verbatim>\<open>/^[A-Za-z]+$/\<close>, \<^verbatim>\<open>/^[A-Za-z]+\|[A-Za-z|]+$/\<close>,
  \<^verbatim>\<open>/^[A-Za-z]+\(.*\)$/\<close>.
\<close>

definition validPatterns :: "pattern list" where
  "validPatterns =
     [PString (js ''*''),
      PRegex (Plus (Cls is_alpha)),
      PRegex (Seq (Plus (Cls is_alpha))
                (Seq (Lit 0x7C) (Plus (Cls (\<lambda>c. is_alpha c \<or> c = 0x7C))))),
      PRegex (Seq (Plus (Cls is_alpha))
                (Seq (Lit 0x28) (Seq (Star (Cls is_dot)) (Lit 0x29))))]"

fun pattern_matches :: "jsstring \<Rightarrow> pattern \<Rightarrow> bool" where
  "pattern_matches matcher (PString p) = (matcher = p)"
| "pattern_matches matcher (PRegex r) = rx_test r matcher"

record matcher_result =
  m_valid :: bool
  m_error :: "jsstring option"

definition validateMatcher :: "json option \<Rightarrow> matcher_result" where
  "validateMatcher matcher =
     (if \<not> truthy matcher \<or> typeof matcher \<noteq> TString
      then \<lparr>m_valid = False, m_error = Some msg_matcher_empty\<rparr>
      else
        let isValid = list_ex (pattern_matches (the_str matcher)) validPatterns
        in \<lparr>m_valid = isValid, m_error = (if isValid then None else Some msg_matcher_syntax)\<rparr>)"

subsection \<open>validateTimeout\<close>

record timeout_result =
  t_valid :: bool
  t_error :: "jsstring option"
  t_warning :: "jsstring option"

text \<open>
  The messages are template literals that hold the timeout: building one throws where the
  conversion of the timeout to a string throws. \<^verbatim>\<open>CONFIG.timeout.recommended[lifecycle]\<close>
  is a number for the four names of the table; for any other name it is \<^verbatim>\<open>undefined\<close>
  or a property that the table inherits, whose tenth is not a number, and no comparison
  with it holds.
\<close>

definition validateTimeout ::
  "(rat \<Rightarrow> jsstring) \<Rightarrow> json option \<Rightarrow> jsstring \<Rightarrow> js_error + timeout_result" where
  "validateTimeout ns timeout lifecycle =
     (if timeout = None \<or> timeout = Some JNull
      then Inr \<lparr>t_valid = True, t_error = None, t_warning = Some msg_timeout_unset\<rparr>
      else if typeof timeout \<noteq> TNumber \<or> num_lt (the_num timeout) (Fin CONFIG_timeout_min)
      then
        (case to_string_opt ns timeout of
           Inl e \<Rightarrow> Inl e
         | Inr current \<Rightarrow>
             Inr \<lparr>t_valid = False, t_error = Some (msg_timeout_positive current),
                   t_warning = None\<rparr>)
      else if num_lt (Fin CONFIG_timeout_max) (the_num timeout)
      then
        (case to_string_opt ns timeout of
           Inl e \<Rightarrow> Inl e
         | Inr current \<Rightarrow>
             Inr \<lparr>t_valid = False,
                   t_error = Some (msg_timeout_max (number_to_string ns (Fin CONFIG_timeout_max))
                                     current),
                   t_warning = None\<rparr>)
      else
        (case map_of CONFIG_timeout_recommended lifecycle of
           Some recommended \<Rightarrow>
             if recommended \<noteq> 0 \<and> num_lt (the_num timeout) (Fin (recommended / 10))
             then
               (case to_string_opt ns timeout of
                  Inl e \<Rightarrow> Inl e
                | Inr current \<Rightarrow>
                    Inr \<lparr>t_valid = True, t_error = None,
                          t_warning = Some (msg_timeout_short current
                                              (number_to_string ns (Fin recommended)))\<rparr>)
             else Inr \<lparr>t_valid = True, t_error = None, t_warning = None\<rparr>
         | None \<Rightarrow> Inr \<lparr>t_valid = True, t_error = None, t_warning = None\<rparr>))"


subsection \<open>The host\<close>

text \<open>
  What the validator reads from its environment: \<^verbatim>\<open>process.platform\<close>,
  \<^verbatim>\<open>os.homedir()\<close>, the variables of the environment (the own properties of
  \<^verbatim>\<open>process.env\<close>, \<open>None\<close> for a name that is not set), \<^verbatim>\<open>path.join\<close>,
  \<^verbatim>\<open>fs.existsSync\<close>, the digit strings of \<^verbatim>\<open>Number::toString\<close>, \<^verbatim>\<open>readJsonFile\<close>
  (\<open>None\<close> when the file is missing or is not JSON) and the three paths of
  \<^verbatim>\<open>getConfigPaths\<close>.
\<close>

record host =
  win32 :: bool
  homedir :: jsstring
  env_get :: "jsstring \<Rightarrow> jsstring option"
  path_join :: "jsstring \<Rightarrow> jsstring \<Rightarrow> jsstring"
  exists_sync :: "jsstring \<Rightarrow> bool"
  num_str :: "rat \<Rightarrow> jsstring"
  read_json :: "jsstring \<Rightarrow> json option"
  path_global :: jsstring
  path_project_local :: jsstring
  path_project :: jsstring

subsection \<open>validateScriptPath\<close>

definition msg_unparsable :: jsstring where
  "msg_unparsable = [0x65E0, 0x6CD5, 0x89E3, 0x6790, 0x811A, 0x672C, 0x8DEF, 0x5F84]"

definition msg_script_missing :: jsstring where
  "msg_script_missing = [0x811A, 0x672C, 0x6587, 0x4EF6, 0x4E0D, 0x5B58, 0x5728]"

text \<open>
  \<^verbatim>\<open>command.match(/(?:node|python3?|bash)\s+["']?([^"'\s]+)/i)\<close>. With the \<^verbatim>\<open>i\<close> flag
  and no \<^verbatim>\<open>u\<close> flag a code unit above 127 never matches an ASCII letter, so the
  comparison folds ASCII case only.
\<close>

definition lower :: "nat \<Rightarrow> nat" where
  "lower c = (if 0x41 \<le> c \<and> c \<le> 0x5A then c + 0x20 else c)"

definition strip_ci :: "jsstring \<Rightarrow> jsstring \<Rightarrow> jsstring list" where
  "strip_ci word s =
     (if map lower (take (length word) s) = word then [drop (length word) s] else [])"

text \<open>The alternatives in the order in which the matcher tries them; \<^verbatim>\<open>3?\<close> is greedy.\<close>

definition interpreter_rests :: "jsstring \<Rightarrow> jsstring list" where
  "interpreter_rests s =
     strip_ci (js ''node'') s @ strip_ci (js ''python3'') s @ strip_ci (js ''python'') s
       @ strip_ci (js ''bash'') s"

definition is_path_char :: "nat \<Rightarrow> bool" where
  "is_path_char c \<longleftrightarrow> c \<noteq> 0x22 \<and> c \<noteq> 0x27 \<and> \<not> is_space c"

text \<open>
  \<^verbatim>\<open>\s+["']?([^"'\s]+)\<close> at the start of \<open>s\<close>, returning the capture. Giving white space
  or the quote back never helps: the class of the capture excludes both.
\<close>

definition script_arg :: "jsstring \<Rightarrow> jsstring option" where
  "script_arg s =
     (if takeWhile is_space s = [] then None
      else
        (case dropWhile is_space s of
           [] \<Rightarrow> None
         | c # r \<Rightarrow>
             let cap = takeWhile is_path_char (if c = 0x22 \<or> c = 0x27 then r else c # r)
             in if cap = [] then None else Some cap))"

fun first_some :: "'a option list \<Rightarrow> 'a option" where
  "first_some [] = None"
| "first_some (None # xs) = first_some xs"
| "first_some (Some x # xs) = Some x"

definition match_at :: "jsstring \<Rightarrow> jsstring option" where
  "match_at s = first_some (map script_arg (interpreter_rests s))"

fun regex_search :: "jsstring \<Rightarrow> jsstring option" where
  "regex_search [] = None"
| "regex_search (c # cs) =
     (case match_at (c # cs) of Some cap \<Rightarrow> Some cap | None \<Rightarrow> regex_search cs)"

text \<open>
  \<^verbatim>\<open>process.env[key] || ""\<close> as \<^verbatim>\<open>replace\<close> inserts it. A name that is not set in the
  environment is looked up in \<^verbatim>\<open>Object.prototype\<close>, which \<^verbatim>\<open>process.env\<close> inherits
  from: the value found there is a built-in function, or the prototype itself for
  \<^verbatim>\<open>__proto__\<close>, and \<^verbatim>\<open>replace\<close> inserts its conversion to a string.
\<close>

definition native_function :: "jsstring \<Rightarrow> jsstring" where
  "native_function name = js ''function '' @ name @ js ''() { [native code] }''"

definition Object_prototype :: "(jsstring \<times> jsstring) list" where
  "Object_prototype =
     (js ''constructor'', native_function (js ''Object'')) #
     map (\<lambda>name. (name, native_function name))
       [js ''__defineGetter__'', js ''__defineSetter__'', js ''hasOwnProperty'',
        js ''__lookupGetter__'', js ''__lookupSetter__'', js ''isPrototypeOf'',
        js ''propertyIsEnumerable'', js ''toString'', js ''valueOf'', js ''toLocaleString'']
     @ [(js ''__proto__'', js ''[object Object]'')]"

definition env_or_empty :: "(jsstring \<Rightarrow> jsstring option) \<Rightarrow> jsstring \<Rightarrow> jsstring" where
  "env_or_empty env key =
     (case env key of
        Some v \<Rightarrow> v
      | None \<Rightarrow> (case map_of Object_prototype key of None \<Rightarrow> [] | Some inherited \<Rightarrow> inherited))"

text \<open>\<^verbatim>\<open>s.replace(/%([^%]+)%/g, (_, key) => process.env[key] || "")\<close>\<close>

function subst_percent :: "(jsstring \<Rightarrow> jsstring option) \<Rightarrow> jsstring \<Rightarrow> jsstring" where
  "subst_percent env [] = []"
| "subst_percent env (c # t) =
     (if c = 0x25 \<and> takeWhile (\<lambda>x. x \<noteq> 0x25) t \<noteq> [] \<and> dropWhile (\<lambda>x. x \<noteq> 0x25) t \<noteq> []
      then env_or_empty env (takeWhile (\<lambda>x. x \<noteq> 0x25) t)
             @ subst_percent env (tl (dropWhile (\<lambda>x. x \<noteq> 0x25) t))
      else c # subst_percent env t)"
  by pat_completeness auto
termination
proof (relation "measure (\<lambda>(env, s). length s)")
  show "wf (measure (\<lambda>(env :: jsstring \<Rightarrow> jsstring option, s :: jsstring). length s))"
    by simp
next
  fix env :: "jsstring \<Rightarrow> jsstring option" and c :: nat and t :: jsstring
  have "length (tl (dropWhile (\<lambda>x. x \<noteq> 0x25) t)) \<le> length t"
    using length_dropWhile_le [of "\<lambda>x. x \<noteq> 0x25" t] by simp
  then show "((env, tl (dropWhile (\<lambda>x. x \<noteq> 0x25) t)), (env, c # t))
               \<in> measure (\<lambda>(env, s). length s)"
    by simp
next
  fix env :: "jsstring \<Rightarrow> jsstring option" and c :: nat and t :: jsstring
  show "((env, t), (env, c # t)) \<in> measure (\<lambda>(env, s). length s)"
    by simp
qed

text \<open>\<^verbatim>\<open>s.replace(/\$([A-Za-z_][A-Za-z0-9_]*)/g, (_, key) => process.env[key] || "")\<close>\<close>

definition is_ident_start :: "nat \<Rightarrow> bool" where
  "is_ident_start c \<longleftrightarrow> is_alpha c \<or> c = 0x5F"

definition is_ident_char :: "nat \<Rightarrow> bool" where
  "is_ident_char c \<longleftrightarrow> is_alpha c \<or> (0x30 \<le> c \<and> c \<le> 0x39) \<or> c = 0x5F"

function subst_dollar :: "(jsstring \<Rightarrow> jsstring option) \<Rightarrow> jsstring \<Rightarrow> jsstring" where
  "subst_dollar env [] = []"
| "subst_dollar env [c] = [c]"
| "subst_dollar env (c # d # t) =
     (if c = 0x24 \<and> is_ident_start d
      then env_or_empty env (d # takeWhile is_ident_char t)
             @ subst_dollar env (dropWhile is_ident_char t)
      else c # subst_dollar env (d # t))"
  by pat_completeness auto
termination
proof (relation "measure (\<lambda>(env, s). length s)")
  show "wf (measure (\<lambda>(env :: jsstring \<Rightarrow> jsstring option, s :: jsstring). length s))"
    by simp
next
  fix env :: "jsstring \<Rightarrow> jsstring option" and c d :: nat and t :: jsstring
  have "length (dropWhile is_ident_char t) \<le> length t"
    by (rule length_dropWhile_le)
  then show "((env, dropWhile is_ident_char t), (env, c # d # t))
               \<in> measure (\<lambda>(env, s). length s)"
    by simp
next
  fix env :: "jsstring \<Rightarrow> jsstring option" and c d :: nat and t :: jsstring
  show "((env, d # t), (env, c # d # t)) \<in> measure (\<lambda>(env, s). length s)"
    by simp
qed

record path_result =
  p_valid :: bool
  p_error :: "jsstring option"
  p_path :: "jsstring option"

definition validateScriptPath :: "host \<Rightarrow> jsstring \<Rightarrow> path_result" where
  "validateScriptPath h command =
     (case regex_search command of
        None \<Rightarrow> \<lparr>p_valid = False, p_error = Some msg_unparsable, p_path = None\<rparr>
      | Some m \<Rightarrow>
          let p1 = (if win32 h then map (\<lambda>c. if c = 0x2F then 0x5C else c) m else m);
              p2 = (if prefix (js ''~'') p1 then path_join h (homedir h) (drop 1 p1) else p1);
              p3 = subst_percent (env_get h) p2;
              scriptPath = subst_dollar (env_get h) p3;
              exists = exists_sync h scriptPath
          in \<lparr>p_valid = exists,
               p_error = (if exists then None else Some msg_script_missing),
               p_path = Some scriptPath\<rparr>)"

subsection \<open>validateHook\<close>

definition msg_invalid_type :: "jsstring \<Rightarrow> jsstring" where
  "msg_invalid_type t = [0x65E0, 0x6548, 0x7684] @ js '' hook type: '' @ t"

definition msg_missing_command :: jsstring where
  "msg_missing_command = [0x7F3A, 0x5C11] @ js '' command '' @ [0x5B57, 0x6BB5]"

text \<open>How a pushed \<^verbatim>\<open>error\<close> or \<^verbatim>\<open>warning\<close> field reads; \<^verbatim>\<open>undefined\<close> when it is not set.\<close>

definition the_msg :: "jsstring option \<Rightarrow> jsstring" where
  "the_msg m = (case m of None \<Rightarrow> js ''undefined'' | Some e \<Rightarrow> e)"

text \<open>\<^verbatim>\<open>CONFIG.validHookTypes.includes(hook.type)\<close>\<close>

definition includes_type :: "json option \<Rightarrow> bool" where
  "includes_type t \<longleftrightarrow> typeof t = TString \<and> the_str t \<in> set CONFIG_validHookTypes"

text \<open>The three blocks of \<^verbatim>\<open>validateHook\<close>: the type, the command, the timeout.\<close>

definition type_issues :: "host \<Rightarrow> json option \<Rightarrow> js_error + jsstring list" where
  "type_issues h t =
     (if \<not> truthy t \<or> \<not> includes_type t
      then
        (case to_string_opt (num_str h) t of
           Inl e \<Rightarrow> Inl e
         | Inr shown \<Rightarrow> Inr [msg_invalid_type shown])
      else Inr [])"

text \<open>\<^verbatim>\<open>command.match\<close> is not a function when a truthy command is not a string.\<close>

definition command_issues :: "host \<Rightarrow> json option \<Rightarrow> js_error + jsstring list" where
  "command_issues h command =
     (if \<not> truthy command then Inr [msg_missing_command]
      else if typeof command \<noteq> TString then Inl TypeError
      else
        let pathResult = validateScriptPath h (the_str command)
        in Inr (if \<not> p_valid pathResult
                then [the_msg (p_error pathResult) @ js '': '' @
                        (case p_path pathResult of
                           None \<Rightarrow> the_str command
                         | Some p \<Rightarrow> if p = [] then the_str command else p)]
                else []))"

definition timeout_issues :: "timeout_result \<Rightarrow> jsstring list" where
  "timeout_issues r = (if \<not> t_valid r then [the_msg (t_error r)] else [])"

definition timeout_warnings :: "timeout_result \<Rightarrow> jsstring list" where
  "timeout_warnings r =
     (if \<not> t_valid r then []
      else (case t_warning r of None \<Rightarrow> [] | Some w \<Rightarrow> if w = [] then [] else [w]))"

record hook_result =
  hr_issues :: "jsstring list"
  hr_warnings :: "jsstring list"

definition validateHook :: "host \<Rightarrow> json \<Rightarrow> jsstring \<Rightarrow> js_error + hook_result" where
  "validateHook h hook lifecycle =
     (case get_prop hook (js ''type'') of
        Inl e \<Rightarrow> Inl e
      | Inr t \<Rightarrow>
          (case type_issues h t of
             Inl e \<Rightarrow> Inl e
           | Inr ty_issues \<Rightarrow>
               (case get_prop hook (js ''command'') of
                  Inl e \<Rightarrow> Inl e
                | Inr command \<Rightarrow>
                    (case command_issues h command of
                       Inl e \<Rightarrow> Inl e
                     | Inr cmd_issues \<Rightarrow>
                         (case get_prop hook (js ''timeout'') of
                            Inl e \<Rightarrow> Inl e
                          | Inr timeout \<Rightarrow>
                              (case validateTimeout (num_str h) timeout lifecycle of
                                 Inl e \<Rightarrow> Inl e
                               | Inr timeoutResult \<Rightarrow>
                                   Inr \<lparr>hr_issues = ty_issues @ cmd_issues
                                                       @ timeout_issues timeoutResult,
                                         hr_warnings = timeout_warnings timeoutResult\<rparr>))))))"


subsection \<open>validateHooksConfig\<close>

definition msg_no_hooks :: jsstring where
  "msg_no_hooks = [0x672A, 0x627E, 0x5230] @ js '' hooks '' @ [0x914D, 0x7F6E]"

definition msg_unknown_lifecycle :: "jsstring \<Rightarrow> jsstring" where
  "msg_unknown_lifecycle lifecycle =
     [0x672A, 0x77E5, 0x7684, 0x751F, 0x547D, 0x5468, 0x671F, 0x4E8B, 0x4EF6] @ js '': ''
       @ lifecycle"

definition msg_not_array :: jsstring where
  "msg_not_array = js ''hooks '' @ [0x914D, 0x7F6E, 0x5E94, 0x8BE5, 0x662F, 0x6570, 0x7EC4]"

definition msg_missing_hooks :: jsstring where
  "msg_missing_hooks = [0x7F3A, 0x5C11] @ js '' hooks '' @ [0x6570, 0x7EC4]"

record summary =
  s_errors :: nat
  s_warnings :: nat
  s_hooks :: nat

record entry_result =
  e_index :: nat
  e_matcher :: "json option"
  e_issues :: "jsstring list"
  e_warnings :: "jsstring list"

text \<open>
  The value stored under a lifecycle name: \<^verbatim>\<open>{valid: false, error}\<close> or
  \<^verbatim>\<open>{valid, entries}\<close>.
\<close>

datatype lifecycle_result =
    LcFailed jsstring
  | LcChecked bool "entry_result list"

record results =
  r_source :: jsstring
  r_valid :: bool
  r_error :: "jsstring option"
  r_lifecycles :: "(jsstring \<times> lifecycle_result) list"
  r_summary :: summary

definition add_errors :: "nat \<Rightarrow> results \<Rightarrow> results" where
  "add_errors n res = res\<lparr>r_summary := (r_summary res)\<lparr>s_errors := s_errors (r_summary res) + n\<rparr>\<rparr>"

definition add_warnings :: "nat \<Rightarrow> results \<Rightarrow> results" where
  "add_warnings n res =
     res\<lparr>r_summary := (r_summary res)\<lparr>s_warnings := s_warnings (r_summary res) + n\<rparr>\<rparr>"

definition add_hooks :: "nat \<Rightarrow> results \<Rightarrow> results" where
  "add_hooks n res = res\<lparr>r_summary := (r_summary res)\<lparr>s_hooks := s_hooks (r_summary res) + n\<rparr>\<rparr>"

text \<open>The loop over \<^verbatim>\<open>entry.hooks\<close>: the state is \<^verbatim>\<open>entryResult\<close> and \<^verbatim>\<open>results\<close>.\<close>

fun hooks_loop ::
  "host \<Rightarrow> jsstring \<Rightarrow> json list \<Rightarrow> entry_result \<times> results
     \<Rightarrow> js_error + entry_result \<times> results" where
  "hooks_loop h lifecycle [] st = Inr st"
| "hooks_loop h lifecycle (hook # rest) (er, res) =
     (case validateHook h hook lifecycle of
        Inl e \<Rightarrow> Inl e
      | Inr hookResult \<Rightarrow>
          hooks_loop h lifecycle rest
            (er\<lparr>e_issues := e_issues er @ hr_issues hookResult,
                e_warnings := e_warnings er @ hr_warnings hookResult\<rparr>,
             add_hooks 1 res))"

text \<open>One iteration of the loop over the entries of a lifecycle, up to the push.\<close>

definition validate_entry ::
  "host \<Rightarrow> jsstring \<Rightarrow> nat \<Rightarrow> json \<Rightarrow> results \<Rightarrow> js_error + entry_result \<times> results" where
  "validate_entry h lifecycle i entry res =
     (case get_prop entry (js ''matcher'') of
        Inl e \<Rightarrow> Inl e
      | Inr matcher \<Rightarrow>
          let matcherResult = validateMatcher matcher;
              er = \<lparr>e_index = i, e_matcher = matcher,
                    e_issues = (if \<not> m_valid matcherResult
                                then [the_msg (m_error matcherResult)] else []),
                    e_warnings = []\<rparr>
          in (case get_prop entry (js ''hooks'') of
                Inl e \<Rightarrow> Inl e
              | Inr hooks \<Rightarrow>
                  if \<not> truthy hooks \<or> \<not> is_array hooks
                  then Inr (er\<lparr>e_issues := e_issues er @ [msg_missing_hooks]\<rparr>, res)
                  else hooks_loop h lifecycle (the_arr hooks) (er, res)))"

text \<open>The loop over the entries: the state is \<^verbatim>\<open>lifecycleResult\<close> and \<^verbatim>\<open>results\<close>.\<close>

fun entries_loop ::
  "host \<Rightarrow> jsstring \<Rightarrow> nat \<Rightarrow> json list \<Rightarrow> (bool \<times> entry_result list) \<times> results
     \<Rightarrow> js_error + (bool \<times> entry_result list) \<times> results" where
  "entries_loop h lifecycle i [] st = Inr st"
| "entries_loop h lifecycle i (entry # rest) ((lvalid, lentries), res) =
     (case validate_entry h lifecycle i entry res of
        Inl e \<Rightarrow> Inl e
      | Inr (er, res1) \<Rightarrow>
          let failed = (length (e_issues er) > 0);
              res2 = (if failed then add_errors (length (e_issues er)) res1 else res1);
              res3 = add_warnings (length (e_warnings er)) res2
          in entries_loop h lifecycle (i + 1) rest
               ((if failed then False else lvalid, lentries @ [er]), res3))"

text \<open>
  An assignment \<^verbatim>\<open>results.lifecycles[lifecycle] = v\<close>: as for \<^verbatim>\<open>data\<close> below, the
  key \<^verbatim>\<open>__proto__\<close> names the prototype and adds no property.
\<close>

definition set_lifecycle ::
  "jsstring \<Rightarrow> lifecycle_result \<Rightarrow> (jsstring \<times> lifecycle_result) list
     \<Rightarrow> (jsstring \<times> lifecycle_result) list" where
  "set_lifecycle key v m = (if key = js ''__proto__'' then m else AList.update key v m)"

text \<open>The loop over \<^verbatim>\<open>Object.entries(config.hooks)\<close>.\<close>

fun lifecycles_loop ::
  "host \<Rightarrow> (jsstring \<times> json) list \<Rightarrow> results \<Rightarrow> js_error + results" where
  "lifecycles_loop h [] res = Inr res"
| "lifecycles_loop h ((lifecycle, entries) # rest) res =
     (if lifecycle \<notin> set CONFIG_validLifecycles
      then lifecycles_loop h rest
             (add_errors 1
                (res\<lparr>r_lifecycles :=
                       set_lifecycle lifecycle (LcFailed (msg_unknown_lifecycle lifecycle))
                         (r_lifecycles res)\<rparr>))
      else if \<not> is_array (Some entries)
      then lifecycles_loop h rest
             (add_errors 1
                (res\<lparr>r_lifecycles :=
                       set_lifecycle lifecycle (LcFailed msg_not_array) (r_lifecycles res)\<rparr>))
      else
        (case entries_loop h lifecycle 0 (the_arr (Some entries)) ((True, []), res) of
           Inl e \<Rightarrow> Inl e
         | Inr ((lvalid, lentries), res1) \<Rightarrow>
             let res2 = res1\<lparr>r_lifecycles :=
                               set_lifecycle lifecycle (LcChecked lvalid lentries)
                                 (r_lifecycles res1)\<rparr>
             in lifecycles_loop h rest (if \<not> lvalid then res2\<lparr>r_valid := False\<rparr> else res2)))"

definition validateHooksConfig :: "host \<Rightarrow> json \<Rightarrow> jsstring \<Rightarrow> js_error + results" where
  "validateHooksConfig h config source =
     (let results = \<lparr>r_source = source, r_valid = True, r_error = None, r_lifecycles = [],
                      r_summary = \<lparr>s_errors = 0, s_warnings = 0, s_hooks = 0\<rparr>\<rparr>
      in (case get_prop config (js ''hooks'') of
            Inl e \<Rightarrow> Inl e
          | Inr hooks \<Rightarrow>
              if \<not> truthy hooks \<or> typeof hooks \<noteq> TObject
              then Inr (results\<lparr>r_valid := False, r_error := Some msg_no_hooks\<rparr>)
              else lifecycles_loop h (object_entries (the hooks)) results))"

subsection \<open>printReport\<close>

text \<open>
  What \<^verbatim>\<open>printReport\<close> writes is not modelled, only whether it returns. It returns at
  once for a result that carries an error; otherwise it goes through the report of each
  lifecycle, skips the failed ones, and for each entry of the others builds a line with
  the template literal \<^verbatim>\<open>matcher: "${entry.matcher}"\<close>, which throws where the
  conversion of the matcher throws. The issues and the warnings are strings.
  \<^verbatim>\<open>printSuggestions\<close> reads strings and numbers only and always returns.
\<close>

text \<open>The truthiness of an \<^verbatim>\<open>error\<close> field.\<close>

definition msg_truthy :: "jsstring option \<Rightarrow> bool" where
  "msg_truthy m \<longleftrightarrow> m \<noteq> None \<and> m \<noteq> Some []"

fun report_entries :: "(rat \<Rightarrow> jsstring) \<Rightarrow> entry_result list \<Rightarrow> js_error + unit" where
  "report_entries ns [] = Inr ()"
| "report_entries ns (entry # rest) =
     (case to_string_opt ns (e_matcher entry) of
        Inl e \<Rightarrow> Inl e
      | Inr shown \<Rightarrow> report_entries ns rest)"

text \<open>A failed lifecycle has no \<^verbatim>\<open>entries\<close>: iterating over them would throw.\<close>

fun report_lifecycles ::
  "(rat \<Rightarrow> jsstring) \<Rightarrow> (jsstring \<times> lifecycle_result) list \<Rightarrow> js_error + unit" where
  "report_lifecycles ns [] = Inr ()"
| "report_lifecycles ns ((lifecycle, LcFailed error) # rest) =
     (if msg_truthy (Some error) then report_lifecycles ns rest else Inl TypeError)"
| "report_lifecycles ns ((lifecycle, LcChecked lvalid lentries) # rest) =
     (case report_entries ns lentries of
        Inl e \<Rightarrow> Inl e
      | Inr u \<Rightarrow> report_lifecycles ns rest)"

definition printReport :: "host \<Rightarrow> results \<Rightarrow> js_error + unit" where
  "printReport h results =
     (if msg_truthy (r_error results) then Inr ()
      else report_lifecycles (num_str h) (r_lifecycles results))"

subsection \<open>main\<close>

text \<open>
  \<open>main h args\<close> returns the status passed to \<^verbatim>\<open>process.exit\<close> and \<^verbatim>\<open>allResults\<close>;
  \<open>Inl TypeError\<close> is an exception that nothing catches, which ends the process with
  status 1 before the summary.
\<close>

definition check_global :: "host \<Rightarrow> js_error + results list" where
  "check_global h =
     (case read_json h (path_global h) of
        None \<Rightarrow> Inr []
      | Some data \<Rightarrow>
          (case validateHooksConfig h data (path_global h) of
             Inl e \<Rightarrow> Inl e
           | Inr results \<Rightarrow>
               (case printReport h results of
                  Inl e \<Rightarrow> Inl e
                | Inr u \<Rightarrow> Inr [results])))"

definition check_project :: "host \<Rightarrow> js_error + results list" where
  "check_project h =
     (let projectConfig =
            (case read_json h (path_project_local h) of
               Some data \<Rightarrow> Some (data, path_project_local h)
             | None \<Rightarrow>
                 (case read_json h (path_project h) of
                    Some data \<Rightarrow> Some (data, path_project h)
                  | None \<Rightarrow> None))
      in (case projectConfig of
            None \<Rightarrow> Inr []
          | Some (data, p) \<Rightarrow>
              (case validateHooksConfig h data p of
                 Inl e \<Rightarrow> Inl e
               | Inr results \<Rightarrow>
                   (case printReport h results of
                      Inl e \<Rightarrow> Inl e
                    | Inr u \<Rightarrow> Inr [results]))))"

definition exit_status :: "results list \<Rightarrow> nat" where
  "exit_status allResults =
     (let totalErrors = foldl (\<lambda>sum r. sum + s_errors (r_summary r)) 0 allResults;
          totalWarnings = foldl (\<lambda>sum r. sum + s_warnings (r_summary r)) 0 allResults
      in if totalErrors = 0 \<and> totalWarnings = 0 then 0
         else if totalErrors = 0 then 0
         else 1)"

definition main :: "host \<Rightarrow> jsstring list \<Rightarrow> js_error + nat \<times> results list" where
  "main h args =
     (let checkGlobal = (js ''--global'' \<in> set args \<or> length args = 0);
          checkProject = (js ''--project'' \<in> set args \<or> length args = 0)
      in (case (if checkGlobal then check_global h else Inr []) of
            Inl e \<Rightarrow> Inl e
          | Inr globalResults \<Rightarrow>
              (case (if checkProject then check_project h else Inr []) of
                 Inl e \<Rightarrow> Inl e
               | Inr projectResults \<Rightarrow>
                   let allResults = globalResults @ projectResults
                   in Inr (exit_status allResults, allResults))))"


section \<open>The descriptor validator\<close>

subsection \<open>parseFrontmatter\<close>

text \<open>A parsed value: a string or an array of strings.\<close>

datatype fm_value = Scalar jsstring | Items "jsstring list"

type_synonym fm_data = "(jsstring \<times> fm_value) list"

datatype fm_mode = ArrayMode | StringMode

text \<open>
  \<^verbatim>\<open>content.match(/^---\n([\s\S]*?)\n---/)\<close>: the text starts with three dashes and a line
  feed, and the lazy group ends at the first line feed that three dashes follow.
\<close>

definition open_delim :: jsstring where
  "open_delim = js ''---'' @ [0x0A]"

definition close_delim :: jsstring where
  "close_delim = [0x0A] @ js ''---''"

fun until_close :: "jsstring \<Rightarrow> jsstring option" where
  "until_close [] = None"
| "until_close (c # cs) =
     (if prefix close_delim (c # cs) then Some []
      else (case until_close cs of None \<Rightarrow> None | Some g \<Rightarrow> Some (c # g)))"

definition header_block :: "jsstring \<Rightarrow> jsstring option" where
  "header_block content =
     (if prefix open_delim content then until_close (drop (length open_delim) content)
      else None)"

text \<open>\<^verbatim>\<open>s.split(d)\<close> for a separator of one code unit.\<close>

fun split_on :: "nat \<Rightarrow> jsstring \<Rightarrow> jsstring list" where
  "split_on d [] = [[]]"
| "split_on d (c # cs) =
     (if c = d then [] # split_on d cs
      else (case split_on d cs of [] \<Rightarrow> [[c]] | l # ls \<Rightarrow> (c # l) # ls))"

text \<open>\<^verbatim>\<open>/^\s+-\s+/.test(line)\<close> and \<^verbatim>\<open>line.replace(/^\s+-\s+/, "")\<close> where it matches.\<close>

definition is_item :: "jsstring \<Rightarrow> bool" where
  "is_item line \<longleftrightarrow>
     takeWhile is_space line \<noteq> [] \<and>
     (case dropWhile is_space line of
        c # d # r \<Rightarrow> c = 0x2D \<and> is_space d
      | _ \<Rightarrow> False)"

definition strip_item :: "jsstring \<Rightarrow> jsstring" where
  "strip_item line = dropWhile is_space (tl (dropWhile is_space line))"

text \<open>\<^verbatim>\<open>/^\s+/.test(line)\<close>\<close>

definition starts_with_space :: "jsstring \<Rightarrow> bool" where
  "starts_with_space line \<longleftrightarrow> (case line of [] \<Rightarrow> False | c # r \<Rightarrow> is_space c)"

text \<open>\<^verbatim>\<open>value.slice(1, -1)\<close>\<close>

definition slice_inner :: "jsstring \<Rightarrow> jsstring" where
  "slice_inner v = butlast (tl v)"

definition ends_with :: "jsstring \<Rightarrow> jsstring \<Rightarrow> bool" where
  "ends_with s e \<longleftrightarrow> suffix e s"

text \<open>
  An assignment \<^verbatim>\<open>data[key] = v\<close>. The key \<^verbatim>\<open>__proto__\<close> names the prototype of
  \<^verbatim>\<open>data\<close>, not a property: assigning to it never adds a property, and none of the
  fields that \<^verbatim>\<open>validateAgent\<close> reads is a property of a prototype.
\<close>

definition set_field :: "jsstring \<Rightarrow> fm_value \<Rightarrow> fm_data \<Rightarrow> fm_data" where
  "set_field key v data = (if key = js ''__proto__'' then data else AList.update key v data)"

text \<open>\<^verbatim>\<open>String(null)\<close> is the property name when \<^verbatim>\<open>currentKey\<close> is still \<^verbatim>\<open>null\<close>.\<close>

definition key_name :: "jsstring option \<Rightarrow> jsstring" where
  "key_name k = (case k of None \<Rightarrow> js ''null'' | Some key \<Rightarrow> key)"

definition value_string :: "fm_value option \<Rightarrow> jsstring" where
  "value_string v =
     (case v of
        None \<Rightarrow> js ''undefined''
      | Some (Scalar s) \<Rightarrow> s
      | Some (Items xs) \<Rightarrow> join (js '','') xs)"

text \<open>
  \<^verbatim>\<open>if (!Array.isArray(data[currentKey])) data[currentKey] = []; data[currentKey].push(item)\<close>
\<close>

definition push_item :: "jsstring \<Rightarrow> jsstring \<Rightarrow> fm_data \<Rightarrow> fm_data" where
  "push_item key item data =
     (case map_of data key of
        Some (Items xs) \<Rightarrow> set_field key (Items (xs @ [item])) data
      | _ \<Rightarrow> set_field key (Items [item]) data)"

text \<open>\<^verbatim>\<open>data[currentKey] += " " + line.trim()\<close>\<close>

definition append_text :: "jsstring \<Rightarrow> jsstring \<Rightarrow> fm_data \<Rightarrow> fm_data" where
  "append_text key t data =
     set_field key (Scalar (value_string (map_of data key) @ js '' '' @ t)) data"

record parser_state =
  ps_data :: fm_data
  ps_currentKey :: "jsstring option"
  ps_mode :: "fm_mode option"

text \<open>The classification of the value of a key line.\<close>

definition classify_value :: "jsstring \<Rightarrow> fm_value \<times> fm_mode option" where
  "classify_value v =
     (if prefix (js ''['') v \<and> ends_with v (js '']'')
      then (Items (map (\<lambda>s. filter (\<lambda>c. c \<noteq> 0x27 \<and> c \<noteq> 0x22) (trim s))
                     (split_on 0x2C (slice_inner v))), None)
      else if v = js ''|'' \<or> v = js ''>'' then (Scalar [], Some StringMode)
      else if v = [] then (Items [], Some ArrayMode)
      else if (prefix [0x22] v \<and> ends_with v [0x22]) \<or> (prefix [0x27] v \<and> ends_with v [0x27])
      then (Scalar (slice_inner v), None)
      else (Scalar v, None))"

text \<open>The body of the loop over the lines.\<close>

definition parse_line :: "parser_state \<Rightarrow> jsstring \<Rightarrow> parser_state" where
  "parse_line st line =
     (if ps_mode st = Some ArrayMode \<and> is_item line
      then st\<lparr>ps_data := push_item (key_name (ps_currentKey st)) (trim (strip_item line))
                             (ps_data st)\<rparr>
      else if ps_mode st = Some StringMode \<and> starts_with_space line \<and> \<not> is_item line
      then st\<lparr>ps_data := append_text (key_name (ps_currentKey st)) (trim line) (ps_data st)\<rparr>
      else if 0x3A \<notin> set line then st\<lparr>ps_mode := None\<rparr>
      else
        let key = trim (takeWhile (\<lambda>c. c \<noteq> 0x3A) line);
            v = trim (tl (dropWhile (\<lambda>c. c \<noteq> 0x3A) line))
        in if key = [] \<or> starts_with_space line then st\<lparr>ps_mode := None\<rparr>
           else \<lparr>ps_data = set_field key (fst (classify_value v)) (ps_data st),
                 ps_currentKey = Some key,
                 ps_mode = snd (classify_value v)\<rparr>)"

definition parseFrontmatter :: "jsstring \<Rightarrow> fm_data option" where
  "parseFrontmatter content =
     (case header_block content of
        None \<Rightarrow> None
      | Some block \<Rightarrow>
          Some (ps_data (foldl parse_line
                           \<lparr>ps_data = [], ps_currentKey = None, ps_mode = None\<rparr>
                           (split_on 0x0A block))))"

subsection \<open>validateAgent\<close>

definition REQUIRED_FIELDS :: "jsstring list" where
  "REQUIRED_FIELDS = [js ''name'', js ''description'', js ''tools'']"

definition VALID_MODELS :: "jsstring list" where
  "VALID_MODELS = [js ''opus'', js ''sonnet'', js ''haiku'']"

definition msg_unreadable :: "jsstring \<Rightarrow> jsstring" where
  "msg_unreadable m = [0x65E0, 0x6CD5, 0x8BFB, 0x53D6, 0x6587, 0x4EF6] @ js '': '' @ m"

definition msg_no_frontmatter :: jsstring where
  "msg_no_frontmatter = [0x7F3A, 0x5C11] @ js '' YAML frontmatter''"

definition msg_bad_frontmatter :: jsstring where
  "msg_bad_frontmatter = js ''YAML frontmatter '' @ [0x683C, 0x5F0F, 0x9519, 0x8BEF]"

definition msg_missing_field :: "jsstring \<Rightarrow> jsstring" where
  "msg_missing_field field = [0x7F3A, 0x5C11, 0x5FC5, 0x9700, 0x5B57, 0x6BB5] @ js '': '' @ field"

definition msg_name_mismatch :: "jsstring \<Rightarrow> jsstring \<Rightarrow> jsstring" where
  "msg_name_mismatch name expected =
     js ''name '' @ [0x22] @ name @ [0x22] @ js '' '' @ [0x4E0E, 0x6587, 0x4EF6, 0x540D] @ js '' ''
       @ [0x22] @ expected @ [0x22] @ js '' '' @ [0x4E0D, 0x4E00, 0x81F4]"

definition msg_invalid_model :: "jsstring \<Rightarrow> jsstring" where
  "msg_invalid_model m =
     [0x65E0, 0x6548, 0x7684] @ js '' model '' @ [0x503C] @ js '': '' @ m
       @ [0xFF0C, 0x5E94, 0x4E3A] @ js '' '' @ join (js ''/'') VALID_MODELS"

definition msg_short_description :: jsstring where
  "msg_short_description =
     js ''description '' @ [0x8FC7, 0x77ED, 0xFF0C, 0x5EFA, 0x8BAE, 0x81F3, 0x5C11] @ js '' 20 ''
       @ [0x5B57, 0x7B26]"

definition msg_short_body :: jsstring where
  "msg_short_body =
     [0x6587, 0x4EF6, 0x5185, 0x5BB9, 0x8FC7, 0x5C11, 0xFF0C, 0x5EFA, 0x8BAE, 0x6DFB, 0x52A0,
      0x66F4, 0x591A, 0x8BF4, 0x660E]"

text \<open>Truthiness of a parsed value: an array is truthy, also when it is empty.\<close>

fun fm_truthy :: "fm_value option \<Rightarrow> bool" where
  "fm_truthy None = False"
| "fm_truthy (Some (Scalar s)) = (s \<noteq> [])"
| "fm_truthy (Some (Items xs)) = True"

text \<open>\<^verbatim>\<open>v.length\<close> of a string or an array.\<close>

fun fm_length :: "fm_value \<Rightarrow> nat" where
  "fm_length (Scalar s) = length s"
| "fm_length (Items xs) = length xs"

text \<open>\<^verbatim>\<open>s.replace(pat, "")\<close> for a string pattern: the first occurrence goes.\<close>

fun remove_first :: "jsstring \<Rightarrow> jsstring \<Rightarrow> jsstring" where
  "remove_first pat [] = []"
| "remove_first pat (c # cs) =
     (if prefix pat (c # cs) then drop (length pat) (c # cs) else c # remove_first pat cs)"

text \<open>
  \<^verbatim>\<open>content.match(/^---\n[\s\S]*?\n---\n([\s\S]*)/)\<close>: the body after the first closing
  line that a line feed ends.
\<close>

fun after_close :: "jsstring \<Rightarrow> jsstring option" where
  "after_close [] = None"
| "after_close (c # cs) =
     (if prefix (close_delim @ [0x0A]) (c # cs) then Some (drop (length close_delim + 1) (c # cs))
      else after_close cs)"

definition body_match :: "jsstring \<Rightarrow> jsstring option" where
  "body_match content =
     (if prefix open_delim content then after_close (drop (length open_delim) content)
      else None)"

text \<open>\<^verbatim>\<open>VALID_MODELS.includes(data.model)\<close>\<close>

fun includes_model :: "fm_value option \<Rightarrow> bool" where
  "includes_model (Some (Scalar s)) = (s \<in> set VALID_MODELS)"
| "includes_model _ = False"

record agent_result =
  a_errors :: "jsstring list"
  a_warnings :: "jsstring list"

text \<open>
  \<open>validateAgent file fileName\<close>: \<open>file\<close> is what \<^verbatim>\<open>fs.readFileSync\<close> gives for the path,
  the message of the exception (\<open>Inl\<close>) or the content, and \<open>fileName\<close> is the base name of
  the path.
\<close>

definition validateAgent :: "jsstring + jsstring \<Rightarrow> jsstring \<Rightarrow> agent_result" where
  "validateAgent file fileName =
     (case file of
        Inl message \<Rightarrow> \<lparr>a_errors = [msg_unreadable message], a_warnings = []\<rparr>
      | Inr content \<Rightarrow>
          if \<not> prefix (js ''---'') content
          then \<lparr>a_errors = [msg_no_frontmatter], a_warnings = []\<rparr>
          else
            (case parseFrontmatter content of
               None \<Rightarrow> \<lparr>a_errors = [msg_bad_frontmatter], a_warnings = []\<rparr>
             | Some data \<Rightarrow>
                 let expectedName = remove_first (js ''.md'') fileName;
                     name = map_of data (js ''name'');
                     model = map_of data (js ''model'');
                     description = map_of data (js ''description'');
                     bodyMatch = body_match content
                 in \<lparr>a_errors =
                        concat (map (\<lambda>field. if \<not> fm_truthy (map_of data field)
                                               then [msg_missing_field field] else [])
                                  REQUIRED_FIELDS)
                        @ (if fm_truthy model \<and> \<not> includes_model model
                           then [msg_invalid_model (value_string model)] else []),
                      a_warnings =
                        (if fm_truthy name \<and> name \<noteq> Some (Scalar expectedName)
                         then [msg_name_mismatch (value_string name) expectedName] else [])
                        @ (if fm_truthy description \<and> fm_length (the description) < 20
                           then [msg_short_description] else [])
                        @ (case bodyMatch of
                             None \<Rightarrow> [msg_short_body]
                           | Some body \<Rightarrow>
                               if length (trim body) < 100 then [msg_short_body] else [])\<rparr>))"

subsection \<open>main of the descriptor validator\<close>

record agents_host =
  dir_exists :: bool
  dir_entries :: "jsstring list"
  read_file :: "jsstring \<Rightarrow> jsstring + jsstring"

text \<open>
  \<open>agents_main h\<close> returns the exit status and the outcome of \<^verbatim>\<open>validateAgent\<close> for each
  file in the order of the loop; \<^verbatim>\<open>path.basename(path.join(AGENTS_DIR, file))\<close> is
  \<open>file\<close>, a name that \<^verbatim>\<open>readdirSync\<close> returned.
\<close>

definition agents_main :: "agents_host \<Rightarrow> nat \<times> (jsstring \<times> agent_result) list" where
  "agents_main h =
     (if \<not> dir_exists h then (1, [])
      else
        let files = filter (\<lambda>f. ends_with f (js ''.md'')) (dir_entries h)
        in if length files = 0 then (0, [])
           else
             let outcomes = map (\<lambda>file. (file, validateAgent (read_file h file) file)) files;
                 hasErrors = list_ex (\<lambda>(file, r). a_errors r \<noteq> []) outcomes
             in (if hasErrors then 1 else 0, outcomes))"


section \<open>The manifest cross-checker\<close>

text \<open>
  What \<^verbatim>\<open>validatePluginAgents\<close> reads: whether the manifest file exists, the outcome of
  reading and parsing it (the message of the exception, or the value), \<^verbatim>\<open>path.join\<close> of
  the plugin root and an entry, and \<^verbatim>\<open>fs.existsSync\<close>.
\<close>

record plugin_host =
  plugin_exists :: bool
  plugin_json :: "jsstring + json"
  resolve :: "jsstring \<Rightarrow> jsstring"
  file_exists :: "jsstring \<Rightarrow> bool"

definition msg_plugin_parse :: "jsstring \<Rightarrow> jsstring" where
  "msg_plugin_parse m = js ''plugin.json '' @ [0x89E3, 0x6790, 0x5931, 0x8D25] @ js '': '' @ m"

definition msg_agents_not_array :: jsstring where
  "msg_agents_not_array =
     js ''plugin.json agents '' @ [0x5B57, 0x6BB5, 0x5FC5, 0x987B, 0x662F, 0x6570, 0x7EC4]"

definition msg_entry_type :: "jsstring \<Rightarrow> jsstring" where
  "msg_entry_type t =
     js ''agents '' @ [0x5143, 0x7D20, 0x5FC5, 0x987B, 0x662F, 0x5B57, 0x7B26, 0x4E32, 0xFF0C,
       0x5B9E, 0x9645] @ js '': '' @ t"

definition msg_entry_directory :: "jsstring \<Rightarrow> jsstring" where
  "msg_entry_directory entry =
     js ''agents '' @ [0x4E0D, 0x652F, 0x6301, 0x76EE, 0x5F55, 0x8DEF, 0x5F84] @ js '': '' @ [0x22]
       @ entry @ [0x22, 0xFF0C, 0x5FC5, 0x987B, 0x5217, 0x51FA, 0x6BCF, 0x4E2A] @ js '' .md ''
       @ [0x6587, 0x4EF6]"

definition msg_entry_suffix :: "jsstring \<Rightarrow> jsstring" where
  "msg_entry_suffix entry =
     js ''agents '' @ [0x8DEF, 0x5F84, 0x5FC5, 0x987B, 0x4EE5] @ js '' .md '' @ [0x7ED3, 0x5C3E]
       @ js '': '' @ [0x22] @ entry @ [0x22]"

definition msg_count_mismatch :: "nat \<Rightarrow> nat \<Rightarrow> jsstring" where
  "msg_count_mismatch pluginCount actualCount =
     js ''plugin.json '' @ [0x58F0, 0x660E] @ js '' '' @ show_nat pluginCount @ js '' ''
       @ [0x4E2A] @ js '' agents'' @ [0xFF0C, 0x5B9E, 0x9645, 0x76EE, 0x5F55, 0x6709] @ js '' ''
       @ show_nat actualCount @ js '' '' @ [0x4E2A]"

definition msg_entry_missing :: "jsstring \<Rightarrow> jsstring" where
  "msg_entry_missing entry =
     js ''plugin.json '' @ [0x5F15, 0x7528, 0x7684, 0x6587, 0x4EF6, 0x4E0D, 0x5B58, 0x5728]
       @ js '': '' @ [0x22] @ entry @ [0x22]"

text \<open>The first loop: the shape of each entry.\<close>

definition format_errors :: "json \<Rightarrow> jsstring list" where
  "format_errors entry =
     (if typeof (Some entry) \<noteq> TString then [msg_entry_type (type_name (typeof (Some entry)))]
      else
        (if ends_with (the_str (Some entry)) (js ''/'')
         then [msg_entry_directory (the_str (Some entry))] else [])
        @ (if \<not> ends_with (the_str (Some entry)) (js ''.md'')
           then [msg_entry_suffix (the_str (Some entry))] else []))"

text \<open>The second loop: the file of each entry.\<close>

definition existence_errors :: "plugin_host \<Rightarrow> json \<Rightarrow> jsstring list" where
  "existence_errors h entry =
     (if typeof (Some entry) \<noteq> TString then []
      else if \<not> file_exists h (resolve h (the_str (Some entry)))
      then [msg_entry_missing (the_str (Some entry))]
      else [])"

definition validatePluginAgents ::
  "plugin_host \<Rightarrow> jsstring list \<Rightarrow> js_error + agent_result" where
  "validatePluginAgents h agentFiles =
     (if \<not> plugin_exists h then Inr \<lparr>a_errors = [], a_warnings = []\<rparr>
      else
        (case plugin_json h of
           Inl message \<Rightarrow> Inr \<lparr>a_errors = [msg_plugin_parse message], a_warnings = []\<rparr>
         | Inr plugin \<Rightarrow>
             (case get_prop plugin (js ''agents'') of
                Inl e \<Rightarrow> Inl e
              | Inr agents \<Rightarrow>
                  if \<not> is_array agents
                  then Inr \<lparr>a_errors = [msg_agents_not_array], a_warnings = []\<rparr>
                  else
                    let pluginCount = length (the_arr agents);
                        actualCount = length agentFiles
                    in Inr \<lparr>a_errors =
                               concat (map format_errors (the_arr agents))
                               @ (if pluginCount \<noteq> actualCount
                                  then [msg_count_mismatch pluginCount actualCount] else [])
                               @ concat (map (existence_errors h) (the_arr agents)),
                             a_warnings = []\<rparr>)))"

section \<open>Notions of the specification\<close>

text \<open>A count-mismatch error is a message that opens the way the count message does.\<close>

definition is_count_mismatch :: "jsstring \<Rightarrow> bool" where
  "is_count_mismatch e \<longleftrightarrow> prefix (js ''plugin.json '' @ [0x58F0, 0x660E]) e"

text \<open>
  The language of a regular expression, the meaning of \<^verbatim>\<open>test\<close> for an anchored
  pattern.
\<close>

inductive_set star :: "jsstring set \<Rightarrow> jsstring set" for A :: "jsstring set" where
  star_nil: "[] \<in> star A"
| star_app: "u \<in> A \<Longrightarrow> v \<in> star A \<Longrightarrow> u @ v \<in> star A"

fun lang :: "rx \<Rightarrow> jsstring set" where
  "lang Nul = {}"
| "lang Eps = {[]}"
| "lang (Cls p) = {[c] | c. p c}"
| "lang (Alt r s) = lang r \<union> lang s"
| "lang (Seq r s) = {u @ v | u v. u \<in> lang r \<and> v \<in> lang s}"
| "lang (Star r) = star (lang r)"

text \<open>An alphabetic identifier, and the four shapes of matcher that validation accepts.\<close>

definition ident :: "jsstring \<Rightarrow> bool" where
  "ident a \<longleftrightarrow> a \<noteq> [] \<and> list_all is_alpha a"

definition accepted_shape :: "jsstring \<Rightarrow> bool" where
  "accepted_shape m \<longleftrightarrow>
     m = js ''*'' \<or> ident m \<or>
     (\<exists>a r. m = a @ [0x7C] @ r \<and> ident a \<and> r \<noteq> [] \<and> list_all (\<lambda>c. is_alpha c \<or> c = 0x7C) r) \<or>
     (\<exists>a b. m = a @ [0x28] @ b @ [0x29] \<and> ident a \<and> list_all is_dot b)"

text \<open>
  The hook actions that the validator visits in the value of the \<^verbatim>\<open>hooks\<close> key, each
  with the name of its lifecycle: the elements of the \<^verbatim>\<open>hooks\<close> arrays of the entries
  of the arrays stored under the valid lifecycle names, in the order of the loops.
\<close>

definition entry_actions :: "json \<Rightarrow> json list" where
  "entry_actions entry =
     (case get_prop entry (js ''hooks'') of Inl e \<Rightarrow> [] | Inr hooks \<Rightarrow> the_arr hooks)"

definition lifecycle_actions :: "jsstring \<times> json \<Rightarrow> (jsstring \<times> json) list" where
  "lifecycle_actions kv =
     (if fst kv \<in> set CONFIG_validLifecycles
      then map (Pair (fst kv)) (concat (map entry_actions (the_arr (Some (snd kv)))))
      else [])"

definition source_actions :: "json \<Rightarrow> (jsstring \<times> json) list" where
  "source_actions hooks = concat (map lifecycle_actions (object_entries hooks))"

text \<open>
  The number of issues and the number of warnings that \<^verbatim>\<open>validateHook\<close> returns for an
  action under its lifecycle.
\<close>

definition action_errors :: "host \<Rightarrow> jsstring \<times> json \<Rightarrow> nat" where
  "action_errors h la =
     (case validateHook h (snd la) (fst la) of Inl e \<Rightarrow> 0 | Inr hr \<Rightarrow> length (hr_issues hr))"

definition action_warnings :: "host \<Rightarrow> jsstring \<times> json \<Rightarrow> nat" where
  "action_warnings h la =
     (case validateHook h (snd la) (fst la) of Inl e \<Rightarrow> 0 | Inr hr \<Rightarrow> length (hr_warnings hr))"

text \<open>
  The errors of the structure around the actions: one for an entry whose matcher is not
  valid, one for an entry without an array of hooks, one for a lifecycle whose name is
  not valid or whose value is not an array.
\<close>

definition entry_errors :: "json \<Rightarrow> nat" where
  "entry_errors entry =
     (case get_prop entry (js ''matcher'') of
        Inl e \<Rightarrow> 0
      | Inr matcher \<Rightarrow> if m_valid (validateMatcher matcher) then 0 else 1)
     + (case get_prop entry (js ''hooks'') of
          Inl e \<Rightarrow> 0
        | Inr hooks \<Rightarrow> if truthy hooks \<and> is_array hooks then 0 else 1)"

definition lifecycle_errors :: "jsstring \<times> json \<Rightarrow> nat" where
  "lifecycle_errors kv =
     (if fst kv \<in> set CONFIG_validLifecycles \<and> is_array (Some (snd kv))
      then sum_list (map entry_errors (the_arr (Some (snd kv))))
      else 1)"

definition structural_errors :: "json \<Rightarrow> nat" where
  "structural_errors hooks = sum_list (map lifecycle_errors (object_entries hooks))"

text \<open>The \<^verbatim>\<open>timeout\<close> of an action is absent, or \<^verbatim>\<open>null\<close>.\<close>

definition timeout_absent :: "json \<Rightarrow> bool" where
  "timeout_absent action \<longleftrightarrow>
     get_prop action (js ''timeout'') = Inr None \<or>
     get_prop action (js ''timeout'') = Inr (Some JNull)"

text \<open>A host for the examples: one script exists, no variable is set.\<close>

definition example_host :: host where
  "example_host =
     \<lparr>win32 = False, homedir = js ''/home/dev'', env_get = (\<lambda>key. None),
      path_join = (\<lambda>a b. a @ b), exists_sync = (\<lambda>p. p = js ''/opt/hooks/check.js''),
      num_str = (\<lambda>q. js ''?''), read_json = (\<lambda>p. None),
      path_global = js ''/home/dev/.claude/settings.json'',
      path_project_local = js ''/work/.claude/settings.local.json'',
      path_project = js ''/work/.claude/settings.json''\<rparr>"

text \<open>The closing sequence, a line feed and three dashes, occurs in the text.\<close>

definition contains_close :: "jsstring \<Rightarrow> bool" where
  "contains_close s \<longleftrightarrow> (\<exists>a b. s = a @ close_delim @ b)"

section \<open>Properties\<close>

subsection \<open>Regular expressions\<close>

lemma nullable_lang: "nullable r \<longleftrightarrow> [] \<in> lang r"
  by (induction r) (auto intro: star.intros)

lemma star_cons:
  "c # s \<in> star A \<longleftrightarrow> (\<exists>u v. s = u @ v \<and> c # u \<in> A \<and> v \<in> star A)"
proof
  assume "c # s \<in> star A"
  then show "\<exists>u v. s = u @ v \<and> c # u \<in> A \<and> v \<in> star A"
  proof (induction "c # s" rule: star.induct)
    case (star_app u v)
    then show ?case by (cases u) auto
  qed
next
  assume "\<exists>u v. s = u @ v \<and> c # u \<in> A \<and> v \<in> star A"
  then obtain u v where "s = u @ v" "c # u \<in> A" "v \<in> star A" by blast
  then show "c # s \<in> star A" using star_app [of "c # u" A v] by simp
qed

lemma lang_deriv: "lang (deriv c r) = {s. c # s \<in> lang r}"
proof (induction r)
  case (Seq r1 r2)
  show ?case
  proof (rule set_eqI)
    fix s
    have "c # s \<in> lang (Seq r1 r2) \<longleftrightarrow>
          ([] \<in> lang r1 \<and> c # s \<in> lang r2) \<or> (\<exists>u v. s = u @ v \<and> c # u \<in> lang r1 \<and> v \<in> lang r2)"
      by (auto simp: Cons_eq_append_conv) 
    then show "s \<in> lang (deriv c (Seq r1 r2)) \<longleftrightarrow> s \<in> {s. c # s \<in> lang (Seq r1 r2)}"
      using Seq by (auto simp: nullable_lang)
  qed
next
  case (Star r)
  then show ?case by (auto simp: star_cons)
qed auto

lemma rx_test_lang: "rx_test r s \<longleftrightarrow> s \<in> lang r"
  by (induction s arbitrary: r) (auto simp: nullable_lang lang_deriv)

lemma star_cls: "star {[c] | c. p c} = {s. list_all p s}"
proof (rule set_eqI, rule iffI)
  fix s assume "s \<in> star {[c] | c. p c}"
  then show "s \<in> {s. list_all p s}" by (induction rule: star.induct) auto
next
  fix s assume "s \<in> {s. list_all p s}"
  then have "list_all p s" by simp
  then show "s \<in> star {[c] | c. p c}"
  proof (induction s)
    case Nil show ?case by (rule star_nil)
  next
    case (Cons c s)
    then have "[c] \<in> {[c] | c. p c}" "s \<in> star {[c] | c. p c}" by auto
    then show ?case using star_app [of "[c]" _ s] by simp
  qed
qed

lemma lang_seq_cls: "s \<in> lang (Seq (Cls p) r) \<longleftrightarrow> (\<exists>c t. s = c # t \<and> p c \<and> t \<in> lang r)"
proof
  assume "s \<in> lang (Seq (Cls p) r)"
  then obtain u v where "s = u @ v" "u \<in> lang (Cls p)" "v \<in> lang r" by auto
  then show "\<exists>c t. s = c # t \<and> p c \<and> t \<in> lang r" by auto
next
  assume "\<exists>c t. s = c # t \<and> p c \<and> t \<in> lang r"
  then obtain c t where "s = [c] @ t" "p c" "t \<in> lang r" by auto
  then have "\<exists>u v. s = u @ v \<and> u \<in> lang (Cls p) \<and> v \<in> lang r" by (intro exI [of _ "[c]"] exI [of _ t]) simp
  then show "s \<in> lang (Seq (Cls p) r)" by simp
qed

lemma lang_plus_cls: "s \<in> lang (Plus (Cls p)) \<longleftrightarrow> s \<noteq> [] \<and> list_all p s"
  unfolding Plus_def lang_seq_cls by (cases s) (auto simp: star_cls)

lemma lang_seq: "s \<in> lang (Seq r1 r2) \<longleftrightarrow> (\<exists>u v. s = u @ v \<and> u \<in> lang r1 \<and> v \<in> lang r2)"
  by auto

lemma lang_lit_seq: "s \<in> lang (Seq (Lit d) r) \<longleftrightarrow> (\<exists>t. s = d # t \<and> t \<in> lang r)"
  unfolding Lit_def lang_seq_cls by auto

lemma lang_star_lit: "s \<in> lang (Seq (Star (Cls p)) (Lit d)) \<longleftrightarrow> (\<exists>b. s = b @ [d] \<and> list_all p b)"
  unfolding lang_seq by (auto simp: star_cls Lit_def)

lemma rx_ident: "rx_test (Plus (Cls is_alpha)) m \<longleftrightarrow> ident m"
  by (simp add: rx_test_lang lang_plus_cls ident_def)

lemma rx_pipes:
  "rx_test (Seq (Plus (Cls is_alpha)) (Seq (Lit 0x7C) (Plus (Cls (\<lambda>c. is_alpha c \<or> c = 0x7C))))) m
     \<longleftrightarrow> (\<exists>a r. m = a @ [0x7C] @ r \<and> ident a \<and> r \<noteq> [] \<and> list_all (\<lambda>c. is_alpha c \<or> c = 0x7C) r)"
  unfolding rx_test_lang lang_seq [of m] lang_lit_seq lang_plus_cls ident_def by auto

lemma rx_argument:
  "rx_test (Seq (Plus (Cls is_alpha)) (Seq (Lit 0x28) (Seq (Star (Cls is_dot)) (Lit 0x29)))) m
     \<longleftrightarrow> (\<exists>a b. m = a @ [0x28] @ b @ [0x29] \<and> ident a \<and> list_all is_dot b)"
  unfolding rx_test_lang lang_seq [of m] lang_lit_seq lang_star_lit lang_plus_cls ident_def by auto

lemma accepted_shape_nonempty: "accepted_shape m \<Longrightarrow> m \<noteq> []"
  by (auto simp: accepted_shape_def ident_def js_def)

lemma valid_patterns_iff:
  "list_ex (pattern_matches m) validPatterns \<longleftrightarrow> accepted_shape m"
  by (simp add: validPatterns_def rx_ident rx_pipes rx_argument accepted_shape_def)

lemma validateMatcher_string:
  "validateMatcher (Some (JStr m)) =
     (if accepted_shape m then \<lparr>m_valid = True, m_error = None\<rparr>
      else \<lparr>m_valid = False,
            m_error = Some (if m = [] then msg_matcher_empty else msg_matcher_syntax)\<rparr>)"
  using accepted_shape_nonempty [of m]
  by (auto simp: validateMatcher_def valid_patterns_iff Let_def)

subsection \<open>The loops of the hook validator\<close>

lemma add_hooks_summary [simp]:
  "s_errors (r_summary (add_hooks n res)) = s_errors (r_summary res)"
  "s_warnings (r_summary (add_hooks n res)) = s_warnings (r_summary res)"
  "s_hooks (r_summary (add_hooks n res)) = s_hooks (r_summary res) + n"
  by (simp_all add: add_hooks_def)

lemma add_errors_summary [simp]:
  "s_errors (r_summary (add_errors n res)) = s_errors (r_summary res) + n"
  "s_warnings (r_summary (add_errors n res)) = s_warnings (r_summary res)"
  "s_hooks (r_summary (add_errors n res)) = s_hooks (r_summary res)"
  by (simp_all add: add_errors_def)

lemma add_warnings_summary [simp]:
  "s_errors (r_summary (add_warnings n res)) = s_errors (r_summary res)"
  "s_warnings (r_summary (add_warnings n res)) = s_warnings (r_summary res) + n"
  "s_hooks (r_summary (add_warnings n res)) = s_hooks (r_summary res)"
  by (simp_all add: add_warnings_def)

lemma update_summary [simp]: "r_summary (res\<lparr>r_lifecycles := x\<rparr>) = r_summary res"
  "r_summary (res\<lparr>r_valid := y\<rparr>) = r_summary res"
  by simp_all

lemma validateHook_parts:
  assumes "validateHook h hook lc = Inr hr"
  obtains ty tis c cmd t tr where "get_prop hook (js ''type'') = Inr ty"
    and "type_issues h ty = Inr tis"
    and "get_prop hook (js ''command'') = Inr c" and "command_issues h c = Inr cmd"
    and "get_prop hook (js ''timeout'') = Inr t"
    and "validateTimeout (num_str h) t lc = Inr tr"
    and "hr_issues hr = tis @ cmd @ timeout_issues tr"
    and "hr_warnings hr = timeout_warnings tr"
  using assms by (auto simp: validateHook_def split: sum.splits)

lemma hooks_loop_frame:
  "hooks_loop h lc hs (er, res) = Inr (er', res') \<Longrightarrow>
     s_errors (r_summary res') = s_errors (r_summary res) \<and>
     s_warnings (r_summary res') = s_warnings (r_summary res) \<and>
     s_hooks (r_summary res') = s_hooks (r_summary res) + length hs \<and>
     prefix (e_issues er) (e_issues er') \<and> prefix (e_warnings er) (e_warnings er')"
proof (induction hs arbitrary: er res)
  case Nil
  then show ?case by simp
next
  case (Cons hook hs)
  from Cons.prems obtain hr where hr: "validateHook h hook lc = Inr hr"
    and rest: "hooks_loop h lc hs
            (er\<lparr>e_issues := e_issues er @ hr_issues hr,
                e_warnings := e_warnings er @ hr_warnings hr\<rparr>, add_hooks 1 res) = Inr (er', res')"
    by (auto split: sum.splits)
  from Cons.IH [OF rest] show ?case
    by (auto dest: append_prefixD)
qed

lemma hooks_loop_ok:
  "hooks_loop h lc hs (er, res) = Inr (er', res') \<Longrightarrow> hook \<in> set hs \<Longrightarrow>
     \<exists>hr. validateHook h hook lc = Inr hr"
proof (induction hs arbitrary: er res)
  case Nil
  then show ?case by simp
next
  case (Cons x hs)
  then show ?case by (auto split: sum.splits)
qed

lemma validate_entry_frame:
  "validate_entry h lc i entry res = Inr (er, res') \<Longrightarrow>
     s_errors (r_summary res') = s_errors (r_summary res) \<and>
     s_warnings (r_summary res') = s_warnings (r_summary res)"
  by (auto simp: validate_entry_def Let_def split: sum.splits if_splits dest: hooks_loop_frame)

lemma validate_entry_no_hooks:
  "validate_entry h lc i (JObj [(js ''matcher'', JStr m), (js ''hooks'', JArr [])]) res =
     Inr (\<lparr>e_index = i, e_matcher = Some (JStr m),
           e_issues = (if accepted_shape m then []
                       else [if m = [] then msg_matcher_empty else msg_matcher_syntax]),
           e_warnings = []\<rparr>, res)"
  by (simp add: validate_entry_def validateMatcher_string the_msg_def js_def)

lemma validate_entry_bad_matcher:
  assumes "validate_entry h lc i entry res = Inr (er, res')"
    and "get_prop entry (js ''matcher'') = Inr (Some (JStr m))" and "\<not> accepted_shape m"
  shows "\<exists>rest. e_issues er = (if m = [] then msg_matcher_empty else msg_matcher_syntax) # rest"
proof -
  let ?e = "if m = [] then msg_matcher_empty else msg_matcher_syntax"
  from assms obtain hooks where "get_prop entry (js ''hooks'') = Inr hooks"
    by (auto simp: validate_entry_def Let_def split: sum.splits)
  with assms have
    "(\<not> truthy hooks \<or> \<not> is_array hooks) \<and>
        er = \<lparr>e_index = i, e_matcher = Some (JStr m), e_issues = [?e] @ [msg_missing_hooks], e_warnings = []\<rparr>
     \<or> hooks_loop h lc (the_arr hooks)
          (\<lparr>e_index = i, e_matcher = Some (JStr m), e_issues = [?e], e_warnings = []\<rparr>, res) = Inr (er, res')"
    by (auto simp: validate_entry_def Let_def validateMatcher_string the_msg_def split: if_splits)
  then show ?thesis
  proof
    assume "(\<not> truthy hooks \<or> \<not> is_array hooks) \<and>
        er = \<lparr>e_index = i, e_matcher = Some (JStr m), e_issues = [?e] @ [msg_missing_hooks], e_warnings = []\<rparr>"
    then show ?thesis by simp
  next
    assume "hooks_loop h lc (the_arr hooks)
          (\<lparr>e_index = i, e_matcher = Some (JStr m), e_issues = [?e], e_warnings = []\<rparr>, res) = Inr (er, res')"
    from hooks_loop_frame [OF this] have "prefix [?e] (e_issues er)" by simp
    then show ?thesis by (auto simp: prefix_def)
  qed
qed

lemma bad_matcher_has_issue:
  assumes "get_prop entry (js ''matcher'') = Inr (Some (JStr m))" and "\<not> accepted_shape m"
    and "validate_entry h lc j entry r = Inr (er, r')"
  shows "e_issues er \<noteq> []"
  using validate_entry_bad_matcher [OF assms(3) assms(1) assms(2)] by auto

lemma entries_loop_mono:
  "entries_loop h lc i es ((lv, les), res) = Inr ((lv', les'), res') \<Longrightarrow>
     s_errors (r_summary res) \<le> s_errors (r_summary res') \<and>
     s_warnings (r_summary res) \<le> s_warnings (r_summary res')"
proof (induction es arbitrary: i lv les res)
  case Nil
  then show ?case by simp
next
  case (Cons entry es)
  from Cons.prems obtain er res1 where ve: "validate_entry h lc i entry res = Inr (er, res1)"
    by (auto split: sum.splits)
  let ?res3 = "add_warnings (length (e_warnings er))
       (if length (e_issues er) > 0 then add_errors (length (e_issues er)) res1 else res1)"
  from Cons.prems ve have rest: "entries_loop h lc (i + 1) es
       ((if length (e_issues er) > 0 then False else lv, les @ [er]), ?res3) = Inr ((lv', les'), res')"
    by (simp add: Let_def)
  from Cons.IH [OF rest] validate_entry_frame [OF ve] show ?case
    by (auto split: if_splits)
qed

lemma entries_loop_errors:
  assumes "entries_loop h lc i es ((lv, les), res) = Inr ((lv', les'), res')"
    and "entry \<in> set es"
    and "\<And>j r er r'. validate_entry h lc j entry r = Inr (er, r') \<Longrightarrow> e_issues er \<noteq> []"
  shows "s_errors (r_summary res) < s_errors (r_summary res')"
  using assms(1,2)
proof (induction es arbitrary: i lv les res)
  case Nil
  then show ?case by simp
next
  case (Cons x es)
  from Cons.prems(1) obtain er res1 where ve: "validate_entry h lc i x res = Inr (er, res1)"
    by (auto split: sum.splits)
  let ?res3 = "add_warnings (length (e_warnings er))
       (if length (e_issues er) > 0 then add_errors (length (e_issues er)) res1 else res1)"
  from Cons.prems(1) ve have rest: "entries_loop h lc (i + 1) es
       ((if length (e_issues er) > 0 then False else lv, les @ [er]), ?res3) = Inr ((lv', les'), res')"
    by (simp add: Let_def)
  note mono = entries_loop_mono [OF rest]
  note frame = validate_entry_frame [OF ve]
  show ?case
  proof (cases "entry = x")
    case True
    with assms(3) ve have "e_issues er \<noteq> []" by blast
    then obtain y ys where "e_issues er = y # ys" by (cases "e_issues er") auto
    with mono frame show ?thesis by (auto split: if_splits)
  next
    case False
    with Cons.prems(2) have "entry \<in> set es" by simp
    from Cons.IH [OF rest this] have "s_errors (r_summary ?res3) < s_errors (r_summary res')" .
    with frame show ?thesis by (auto split: if_splits)
  qed
qed

lemma lifecycles_loop_mono:
  "lifecycles_loop h kvs res = Inr res' \<Longrightarrow>
     s_errors (r_summary res) \<le> s_errors (r_summary res') \<and>
     s_warnings (r_summary res) \<le> s_warnings (r_summary res')"
proof (induction kvs arbitrary: res)
  case Nil
  then show ?case by simp
next
  case (Cons kv kvs)
  obtain lc v where kv: "kv = (lc, v)" by (cases kv)
  show ?case
  proof (cases "lc \<notin> set CONFIG_validLifecycles \<or> \<not> is_array (Some v)")
    case True
    with Cons.prems kv obtain msg where
      "lifecycles_loop h kvs (add_errors 1 (res\<lparr>r_lifecycles := set_lifecycle lc (LcFailed msg) (r_lifecycles res)\<rparr>)) = Inr res'"
      by (auto split: if_splits)
    from Cons.IH [OF this] show ?thesis by simp
  next
    case False
    with Cons.prems kv obtain lv les res1 where
      el: "entries_loop h lc 0 (the_arr (Some v)) ((True, []), res) = Inr ((lv, les), res1)"
      by (auto split: sum.splits)
    let ?res2 = "res1\<lparr>r_lifecycles := set_lifecycle lc (LcChecked lv les) (r_lifecycles res1)\<rparr>"
    from Cons.prems kv False el have
      "lifecycles_loop h kvs (if \<not> lv then ?res2\<lparr>r_valid := False\<rparr> else ?res2) = Inr res'"
      by (simp add: Let_def)
    from Cons.IH [OF this] entries_loop_mono [OF el] show ?thesis
      by (auto split: if_splits)
  qed
qed

lemma lifecycles_loop_step:
  assumes "lifecycles_loop h ((lc, v) # kvs) res = Inr res'"
  obtains res1 where "lifecycles_loop h kvs res1 = Inr res'"
    and "s_errors (r_summary res) \<le> s_errors (r_summary res1)"
    and "s_warnings (r_summary res) \<le> s_warnings (r_summary res1)"
    and "lc \<in> set CONFIG_validLifecycles \<Longrightarrow> is_array (Some v) \<Longrightarrow>
           \<exists>lv les res0. entries_loop h lc 0 (the_arr (Some v)) ((True, []), res) = Inr ((lv, les), res0)
             \<and> r_summary res1 = r_summary res0"
proof (cases "lc \<notin> set CONFIG_validLifecycles \<or> \<not> is_array (Some v)")
  case True
  with assms obtain msg where
    "lifecycles_loop h kvs (add_errors 1 (res\<lparr>r_lifecycles := set_lifecycle lc (LcFailed msg) (r_lifecycles res)\<rparr>)) = Inr res'"
    by (auto split: if_splits)
  then show ?thesis using True
    by (intro that [of "add_errors 1 (res\<lparr>r_lifecycles := set_lifecycle lc (LcFailed msg) (r_lifecycles res)\<rparr>)"]) auto
next
  case False
  with assms obtain lv les res0 where
    el: "entries_loop h lc 0 (the_arr (Some v)) ((True, []), res) = Inr ((lv, les), res0)"
    by (auto split: sum.splits)
  let ?res2 = "res0\<lparr>r_lifecycles := set_lifecycle lc (LcChecked lv les) (r_lifecycles res0)\<rparr>"
  from assms False el have
    "lifecycles_loop h kvs (if \<not> lv then ?res2\<lparr>r_valid := False\<rparr> else ?res2) = Inr res'"
    by (simp add: Let_def)
  then show ?thesis using entries_loop_mono [OF el] el
    by (intro that [of "if \<not> lv then ?res2\<lparr>r_valid := False\<rparr> else ?res2"]) (auto split: if_splits)
qed

lemma lifecycles_loop_errors:
  assumes "lifecycles_loop h kvs res = Inr res'"
    and "(lc, JArr es) \<in> set kvs" and "lc \<in> set CONFIG_validLifecycles" and "entry \<in> set es"
    and "\<And>j r er r'. validate_entry h lc j entry r = Inr (er, r') \<Longrightarrow> e_issues er \<noteq> []"
  shows "s_errors (r_summary res) < s_errors (r_summary res')"
  using assms(1,2)
proof (induction kvs arbitrary: res)
  case Nil
  then show ?case by simp
next
  case (Cons kv kvs)
  obtain k v where kv: "kv = (k, v)" by (cases kv)
  from Cons.prems(1) kv have run: "lifecycles_loop h ((k, v) # kvs) res = Inr res'" by simp
  from run show ?case
  proof (rule lifecycles_loop_step)
    fix res1
    assume rest: "lifecycles_loop h kvs res1 = Inr res'"
      and le: "s_errors (r_summary res) \<le> s_errors (r_summary res1)"
      and arr: "k \<in> set CONFIG_validLifecycles \<Longrightarrow> is_array (Some v) \<Longrightarrow>
           \<exists>lv les res0. entries_loop h k 0 (the_arr (Some v)) ((True, []), res) = Inr ((lv, les), res0)
             \<and> r_summary res1 = r_summary res0"
    show ?thesis
    proof (cases "kv = (lc, JArr es)")
      case True
      with kv assms(3) arr obtain lv les res0 where
        el: "entries_loop h lc 0 es ((True, []), res) = Inr ((lv, les), res0)"
        and eq: "r_summary res1 = r_summary res0" by auto
      have "s_errors (r_summary res) < s_errors (r_summary res0)"
        by (rule entries_loop_errors [OF el assms(4)]) (rule assms(5))
      with eq lifecycles_loop_mono [OF rest] show ?thesis by simp
    next
      case False
      with Cons.prems(2) have "(lc, JArr es) \<in> set kvs" by simp
      from Cons.IH [OF rest this] le show ?thesis by simp
    qed
  qed
qed

lemma config_entries:
  assumes "validateHooksConfig h config src = Inr r"
    and "get_prop config (js ''hooks'') = Inr (Some hooks)"
    and "(lc, v) \<in> set (object_entries hooks)"
  shows "lifecycles_loop h (object_entries hooks)
           \<lparr>r_source = src, r_valid = True, r_error = None, r_lifecycles = [],
             r_summary = \<lparr>s_errors = 0, s_warnings = 0, s_hooks = 0\<rparr>\<rparr> = Inr r"
proof -
  from assms(3) have "truthy (Some hooks) \<and> typeof (Some hooks) = TObject"
    by (cases hooks) auto
  with assms(1,2) show ?thesis by (simp add: validateHooksConfig_def)
qed

text \<open>
  The counts of a source are sums over its structure and over the actions that the loops
  visit, and every visited action was validated without an exception.
\<close>

lemma sum_list_concat_map:
  "sum_list (map f (concat xss)) = sum_list (map (\<lambda>xs. sum_list (map f xs)) xss)"
  by (induction xss) auto

lemma the_arr_not_array: "\<not> truthy v \<or> \<not> is_array v \<Longrightarrow> the_arr v = []"
  by (cases v rule: is_array.cases) auto

lemma in_the_arr: "a \<in> set (the_arr v) \<Longrightarrow> truthy v \<and> is_array v"
  by (cases v rule: is_array.cases) auto

lemma hooks_loop_exact:
  "hooks_loop h lc hs (er, res) = Inr (er', res') \<Longrightarrow>
     length (e_issues er') =
       length (e_issues er) + sum_list (map (\<lambda>a. action_errors h (lc, a)) hs) \<and>
     length (e_warnings er') =
       length (e_warnings er) + sum_list (map (\<lambda>a. action_warnings h (lc, a)) hs)"
proof (induction hs arbitrary: er res)
  case Nil
  then show ?case by simp
next
  case (Cons hook hs)
  from Cons.prems obtain hr where hr: "validateHook h hook lc = Inr hr"
    and rest: "hooks_loop h lc hs
            (er\<lparr>e_issues := e_issues er @ hr_issues hr,
                e_warnings := e_warnings er @ hr_warnings hr\<rparr>, add_hooks 1 res) = Inr (er', res')"
    by (auto split: sum.splits)
  from Cons.IH [OF rest] hr show ?case
    by (simp add: action_errors_def action_warnings_def)
qed

lemma validate_entry_exact:
  assumes "validate_entry h lc i entry res = Inr (er, res')"
  shows "length (e_issues er) =
           entry_errors entry + sum_list (map (\<lambda>a. action_errors h (lc, a)) (entry_actions entry)) \<and>
         length (e_warnings er) =
           sum_list (map (\<lambda>a. action_warnings h (lc, a)) (entry_actions entry))"
proof -
  from assms obtain m hooks where m: "get_prop entry (js ''matcher'') = Inr m"
    and hk: "get_prop entry (js ''hooks'') = Inr hooks"
    by (auto simp: validate_entry_def Let_def split: sum.splits)
  let ?er = "\<lparr>e_index = i, e_matcher = m,
               e_issues = (if \<not> m_valid (validateMatcher m) then [the_msg (m_error (validateMatcher m))] else []),
               e_warnings = []\<rparr>"
  show ?thesis
  proof (cases "\<not> truthy hooks \<or> \<not> is_array hooks")
    case True
    with assms m hk have "er = ?er\<lparr>e_issues := e_issues ?er @ [msg_missing_hooks]\<rparr>"
      by (auto simp: validate_entry_def Let_def)
    with True m hk the_arr_not_array [OF True] show ?thesis
      by (auto simp: entry_errors_def entry_actions_def)
  next
    case False
    with assms m hk have "hooks_loop h lc (the_arr hooks) (?er, res) = Inr (er, res')"
      by (auto simp: validate_entry_def Let_def)
    from hooks_loop_exact [OF this] False m hk show ?thesis
      by (auto simp: entry_errors_def entry_actions_def)
  qed
qed

lemma validate_entry_ok:
  assumes "validate_entry h lc i entry res = Inr (er, res')" and "a \<in> set (entry_actions entry)"
  shows "\<exists>hr. validateHook h a lc = Inr hr"
proof -
  from assms obtain m hooks where m: "get_prop entry (js ''matcher'') = Inr m"
    and hk: "get_prop entry (js ''hooks'') = Inr hooks"
    by (auto simp: validate_entry_def Let_def split: sum.splits)
  from assms(2) hk have a: "a \<in> set (the_arr hooks)" by (simp add: entry_actions_def)
  then have "\<not> (\<not> truthy hooks \<or> \<not> is_array hooks)"
    using in_the_arr by blast
  with assms(1) m hk obtain er0 where "hooks_loop h lc (the_arr hooks) (er0, res) = Inr (er, res')"
    by (auto simp: validate_entry_def Let_def)
  from hooks_loop_ok [OF this a] show ?thesis .
qed

lemma entries_loop_exact:
  "entries_loop h lc i es ((lv, les), res) = Inr ((lv', les'), res') \<Longrightarrow>
     s_errors (r_summary res') =
       s_errors (r_summary res) + sum_list (map entry_errors es)
         + sum_list (map (\<lambda>a. action_errors h (lc, a)) (concat (map entry_actions es))) \<and>
     s_warnings (r_summary res') =
       s_warnings (r_summary res)
         + sum_list (map (\<lambda>a. action_warnings h (lc, a)) (concat (map entry_actions es)))"
proof (induction es arbitrary: i lv les res)
  case Nil
  then show ?case by simp
next
  case (Cons entry es)
  from Cons.prems obtain er res1 where ve: "validate_entry h lc i entry res = Inr (er, res1)"
    by (auto split: sum.splits)
  let ?res3 = "add_warnings (length (e_warnings er))
       (if length (e_issues er) > 0 then add_errors (length (e_issues er)) res1 else res1)"
  from Cons.prems ve have rest: "entries_loop h lc (i + 1) es
       ((if length (e_issues er) > 0 then False else lv, les @ [er]), ?res3) = Inr ((lv', les'), res')"
    by (simp add: Let_def)
  from Cons.IH [OF rest] validate_entry_frame [OF ve] validate_entry_exact [OF ve] show ?case
    by (auto split: if_splits)
qed

lemma entries_loop_ok:
  "entries_loop h lc i es ((lv, les), res) = Inr ((lv', les'), res') \<Longrightarrow>
     a \<in> set (concat (map entry_actions es)) \<Longrightarrow> \<exists>hr. validateHook h a lc = Inr hr"
proof (induction es arbitrary: i lv les res)
  case Nil
  then show ?case by simp
next
  case (Cons entry es)
  from Cons.prems(1) obtain er res1 where ve: "validate_entry h lc i entry res = Inr (er, res1)"
    by (auto split: sum.splits)
  let ?res3 = "add_warnings (length (e_warnings er))
       (if length (e_issues er) > 0 then add_errors (length (e_issues er)) res1 else res1)"
  from Cons.prems(1) ve have rest: "entries_loop h lc (i + 1) es
       ((if length (e_issues er) > 0 then False else lv, les @ [er]), ?res3) = Inr ((lv', les'), res')"
    by (simp add: Let_def)
  from Cons.prems(2) have "a \<in> set (entry_actions entry) \<or> a \<in> set (concat (map entry_actions es))"
    by auto
  then show ?case
  proof
    assume "a \<in> set (entry_actions entry)"
    from validate_entry_ok [OF ve this] show ?thesis .
  next
    assume "a \<in> set (concat (map entry_actions es))"
    from Cons.IH [OF rest this] show ?thesis .
  qed
qed

lemma lifecycle_sums:
  "sum_list (map (action_errors h) (lifecycle_actions (lc, v))) =
     (if lc \<in> set CONFIG_validLifecycles
      then sum_list (map (\<lambda>a. action_errors h (lc, a)) (concat (map entry_actions (the_arr (Some v)))))
      else 0)"
  "sum_list (map (action_warnings h) (lifecycle_actions (lc, v))) =
     (if lc \<in> set CONFIG_validLifecycles
      then sum_list (map (\<lambda>a. action_warnings h (lc, a)) (concat (map entry_actions (the_arr (Some v)))))
      else 0)"
  by (simp_all add: lifecycle_actions_def comp_def)

lemma lifecycle_failed:
  assumes "lc \<notin> set CONFIG_validLifecycles \<or> \<not> is_array (Some v)"
  shows "lifecycle_errors (lc, v) = 1" and "lifecycle_actions (lc, v) = []"
  using assms the_arr_not_array [of "Some v"]
  by (auto simp: lifecycle_errors_def lifecycle_actions_def)

lemma lifecycle_checked:
  assumes "\<not> (lc \<notin> set CONFIG_validLifecycles \<or> \<not> is_array (Some v))"
  shows "lifecycle_errors (lc, v) = sum_list (map entry_errors (the_arr (Some v)))"
  using assms by (simp add: lifecycle_errors_def)

lemma lifecycles_loop_exact:
  "lifecycles_loop h kvs res = Inr res' \<Longrightarrow>
     s_errors (r_summary res') =
       s_errors (r_summary res) + sum_list (map lifecycle_errors kvs)
         + sum_list (map (action_errors h) (concat (map lifecycle_actions kvs))) \<and>
     s_warnings (r_summary res') =
       s_warnings (r_summary res)
         + sum_list (map (action_warnings h) (concat (map lifecycle_actions kvs)))"
proof (induction kvs arbitrary: res)
  case Nil
  then show ?case by simp
next
  case (Cons kv kvs)
  obtain lc v where kv: "kv = (lc, v)" by (cases kv)
  show ?case
  proof (cases "lc \<notin> set CONFIG_validLifecycles \<or> \<not> is_array (Some v)")
    case True
    with Cons.prems kv obtain msg where
      "lifecycles_loop h kvs (add_errors 1 (res\<lparr>r_lifecycles := set_lifecycle lc (LcFailed msg) (r_lifecycles res)\<rparr>)) = Inr res'"
      by (auto split: if_splits)
    from Cons.IH [OF this] kv show ?thesis
      by (simp add: lifecycle_failed [OF True])
  next
    case False
    with Cons.prems kv obtain lv les res1 where
      el: "entries_loop h lc 0 (the_arr (Some v)) ((True, []), res) = Inr ((lv, les), res1)"
      by (auto split: sum.splits)
    let ?res2 = "res1\<lparr>r_lifecycles := set_lifecycle lc (LcChecked lv les) (r_lifecycles res1)\<rparr>"
    from Cons.prems kv False el have
      "lifecycles_loop h kvs (if \<not> lv then ?res2\<lparr>r_valid := False\<rparr> else ?res2) = Inr res'"
      by (simp add: Let_def)
    from False have "lc \<in> set CONFIG_validLifecycles" by simp
    with Cons.IH [OF \<open>lifecycles_loop h kvs (if \<not> lv then ?res2\<lparr>r_valid := False\<rparr> else ?res2) = Inr res'\<close>]
      entries_loop_exact [OF el] kv show ?thesis
      by (simp add: lifecycle_checked [OF False] lifecycle_sums split: if_splits)
  qed
qed

lemma lifecycles_loop_ok:
  "lifecycles_loop h kvs res = Inr res' \<Longrightarrow> (lc, a) \<in> set (concat (map lifecycle_actions kvs)) \<Longrightarrow>
     \<exists>hr. validateHook h a lc = Inr hr"
proof (induction kvs arbitrary: res)
  case Nil
  then show ?case by simp
next
  case (Cons kv kvs)
  obtain k v where kv: "kv = (k, v)" by (cases kv)
  from Cons.prems(2) have "(lc, a) \<in> set (lifecycle_actions kv) \<or> (lc, a) \<in> set (concat (map lifecycle_actions kvs))"
    by auto
  then show ?case
  proof
    assume m: "(lc, a) \<in> set (lifecycle_actions kv)"
    with kv have k: "k = lc" "lc \<in> set CONFIG_validLifecycles"
      and a: "a \<in> set (concat (map entry_actions (the_arr (Some v))))"
      by (auto simp: lifecycle_actions_def split: if_splits)
    from a have "is_array (Some v)" using in_the_arr [of _ "Some v"] by auto
    with Cons.prems(1) kv k obtain lv les res1 where
      el: "entries_loop h lc 0 (the_arr (Some v)) ((True, []), res) = Inr ((lv, les), res1)"
      by (auto split: sum.splits)
    from entries_loop_ok [OF el a] show ?thesis .
  next
    assume m: "(lc, a) \<in> set (concat (map lifecycle_actions kvs))"
    show ?thesis
    proof (cases "k \<notin> set CONFIG_validLifecycles \<or> \<not> is_array (Some v)")
      case True
      with Cons.prems(1) kv obtain msg where
        "lifecycles_loop h kvs (add_errors 1 (res\<lparr>r_lifecycles := set_lifecycle k (LcFailed msg) (r_lifecycles res)\<rparr>)) = Inr res'"
        by (auto split: if_splits)
      from Cons.IH [OF this m] show ?thesis .
    next
      case False
      with Cons.prems(1) kv obtain lv les res1 where
        el: "entries_loop h k 0 (the_arr (Some v)) ((True, []), res) = Inr ((lv, les), res1)"
        by (auto split: sum.splits)
      let ?res2 = "res1\<lparr>r_lifecycles := set_lifecycle k (LcChecked lv les) (r_lifecycles res1)\<rparr>"
      from Cons.prems(1) kv False el have
        "lifecycles_loop h kvs (if \<not> lv then ?res2\<lparr>r_valid := False\<rparr> else ?res2) = Inr res'"
        by (simp add: Let_def)
      from Cons.IH [OF this m] show ?thesis .
    qed
  qed
qed

lemma object_entries_not_object:
  "\<not> truthy (Some v) \<or> typeof (Some v) \<noteq> TObject \<Longrightarrow> object_entries v = []"
  by (cases v) auto

lemma source_counts:
  assumes "get_prop config (js ''hooks'') = Inr (Some hooks)"
    and "validateHooksConfig h config src = Inr r"
  shows "s_errors (r_summary r) =
           structural_errors hooks + sum_list (map (action_errors h) (source_actions hooks))"
    and "s_warnings (r_summary r) = sum_list (map (action_warnings h) (source_actions hooks))"
proof -
  have "s_errors (r_summary r) =
           structural_errors hooks + sum_list (map (action_errors h) (source_actions hooks)) \<and>
        s_warnings (r_summary r) = sum_list (map (action_warnings h) (source_actions hooks))"
  proof (cases "\<not> truthy (Some hooks) \<or> typeof (Some hooks) \<noteq> TObject")
    case True
    with assms have "r_summary r = \<lparr>s_errors = 0, s_warnings = 0, s_hooks = 0\<rparr>"
      by (auto simp: validateHooksConfig_def)
    with object_entries_not_object [OF True] show ?thesis
      by (simp add: structural_errors_def source_actions_def)
  next
    case False
    with assms have "lifecycles_loop h (object_entries hooks)
           \<lparr>r_source = src, r_valid = True, r_error = None, r_lifecycles = [],
             r_summary = \<lparr>s_errors = 0, s_warnings = 0, s_hooks = 0\<rparr>\<rparr> = Inr r"
      by (auto simp: validateHooksConfig_def)
    from lifecycles_loop_exact [OF this] show ?thesis
      by (simp add: structural_errors_def source_actions_def)
  qed
  then show "s_errors (r_summary r) =
           structural_errors hooks + sum_list (map (action_errors h) (source_actions hooks))"
    and "s_warnings (r_summary r) = sum_list (map (action_warnings h) (source_actions hooks))"
    by simp_all
qed

lemma source_actions_ok:
  assumes "get_prop config (js ''hooks'') = Inr (Some hooks)"
    and "validateHooksConfig h config src = Inr r"
    and "(lc, a) \<in> set (source_actions hooks)"
  shows "\<exists>hr. validateHook h a lc = Inr hr"
proof -
  from assms(3) have "object_entries hooks \<noteq> []" by (auto simp: source_actions_def)
  then have "\<not> (\<not> truthy (Some hooks) \<or> typeof (Some hooks) \<noteq> TObject)"
    using object_entries_not_object [of hooks] by blast
  with assms(1,2) have "lifecycles_loop h (object_entries hooks)
           \<lparr>r_source = src, r_valid = True, r_error = None, r_lifecycles = [],
             r_summary = \<lparr>s_errors = 0, s_warnings = 0, s_hooks = 0\<rparr>\<rparr> = Inr r"
    by (auto simp: validateHooksConfig_def)
  from lifecycles_loop_ok [OF this] assms(3) show ?thesis
    by (simp add: source_actions_def)
qed

lemma foldl_plus: "foldl (\<lambda>sum r. sum + f r) (a :: nat) rs = a + sum_list (map f rs)"
  by (induction rs arbitrary: a) auto

lemma exit_status_iff:
  "exit_status rs = (if \<exists>r \<in> set rs. 0 < s_errors (r_summary r) then 1 else 0)"
  by (auto simp: exit_status_def foldl_plus Let_def sum_list_eq_0_iff)

subsection \<open>Rules for evaluating the validators on a given input\<close>

lemmas eval_hooks = validateHooksConfig_def set_lifecycle_def validate_entry_def validateMatcher_def validPatterns_def
  CONFIG_validLifecycles_def js_def is_alpha_def is_dot_def Plus_def Lit_def the_msg_def
  add_errors_def add_warnings_def add_hooks_def Let_def exit_status_def printReport_def
  msg_truthy_def

lemmas eval_path = validateHook_def type_issues_def command_issues_def includes_type_def
  CONFIG_validHookTypes_def validateScriptPath_def match_at_def interpreter_rests_def
  strip_ci_def lower_def script_arg_def is_space_def is_path_char_def example_host_def
  timeout_issues_def timeout_warnings_def validateTimeout_def msg_timeout_unset_def
  to_string_opt_def

lemmas eval_parse = parseFrontmatter_def header_block_def open_delim_def close_delim_def
  parse_line_def is_item_def strip_item_def starts_with_space_def classify_value_def slice_inner_def
  ends_with_def suffix_to_prefix trim_def is_space_def set_field_def push_item_def append_text_def
  key_name_def value_string_def js_def Let_def

lemmas eval_agent = validateAgent_def REQUIRED_FIELDS_def VALID_MODELS_def body_match_def
  msg_missing_field_def remove_first.simps

subsection \<open>The exit status and a missing hooks key: claims C1 and C3\<close>

text \<open>
  Claim C1 at a source whose \<^verbatim>\<open>hooks\<close> key is missing: the only checked source is the
  global settings file and it holds \<^verbatim>\<open>{}\<close>. The result of the source is marked invalid
  and carries the error, its error count stays 0, and \<^verbatim>\<open>main\<close> exits with status 0.
\<close>

theorem missing_hooks_exit_status:
  "main (example_host\<lparr>read_json :=
            (\<lambda>p. if p = js ''/home/dev/.claude/settings.json'' then Some (JObj []) else None)\<rparr>)
     [js ''--global'']
   = Inr (0, [\<lparr>r_source = js ''/home/dev/.claude/settings.json'', r_valid = False,
                r_error = Some msg_no_hooks, r_lifecycles = [],
                r_summary = \<lparr>s_errors = 0, s_warnings = 0, s_hooks = 0\<rparr>\<rparr>])"
  by (simp add: main_def check_global_def example_host_def validateHooksConfig_def exit_status_def
      printReport_def msg_truthy_def msg_no_hooks_def js_def)

text \<open>
  The other structural errors are counted: a source with an unknown lifecycle name has the
  error count 1, and the same run exits with status 1.
\<close>

lemma unknown_lifecycle_exit_status:
  "main (example_host\<lparr>read_json :=
            (\<lambda>p. if p = js ''/home/dev/.claude/settings.json''
                 then Some (JObj [(js ''hooks'', JObj [(js ''OnSave'', JArr [])])]) else None)\<rparr>)
     [js ''--global'']
   = Inr (1, [\<lparr>r_source = js ''/home/dev/.claude/settings.json'', r_valid = True,
                r_error = None,
                r_lifecycles = [(js ''OnSave'', LcFailed (msg_unknown_lifecycle (js ''OnSave'')))],
                r_summary = \<lparr>s_errors = 1, s_warnings = 0, s_hooks = 0\<rparr>\<rparr>])"
  by (simp add: main_def check_global_def example_host_def eval_hooks msg_unknown_lifecycle_def
      js_def)

text \<open>
  Where the guard of \<^verbatim>\<open>validateHooksConfig\<close> applies: when the \<^verbatim>\<open>hooks\<close> key of the
  source is absent, or holds \<^verbatim>\<open>null\<close>, a boolean, a number or a string, the result
  carries exactly one error, in its \<^verbatim>\<open>error\<close> field, no lifecycle is validated, the
  per-lifecycle report is empty and the three counts are zero.
\<close>

lemma missing_hooks_reported:
  assumes "get_prop config (js ''hooks'') = Inr v"
    and "v = None \<or> v = Some JNull \<or> typeof v \<noteq> TObject"
  shows "validateHooksConfig h config src =
           Inr \<lparr>r_source = src, r_valid = False, r_error = Some msg_no_hooks, r_lifecycles = [],
                 r_summary = \<lparr>s_errors = 0, s_warnings = 0, s_hooks = 0\<rparr>\<rparr>"
  using assms by (auto simp: validateHooksConfig_def)

lemma missing_hooks_example:
  "validateHooksConfig example_host (JObj [(js ''permissions'', JObj [])]) (js ''settings.json'') =
     Inr \<lparr>r_source = js ''settings.json'', r_valid = False, r_error = Some msg_no_hooks,
           r_lifecycles = [],
           r_summary = \<lparr>s_errors = 0, s_warnings = 0, s_hooks = 0\<rparr>\<rparr> \<and>
   validateHooksConfig example_host (JObj [(js ''hooks'', JStr (js ''none''))]) (js ''settings.json'') =
     Inr \<lparr>r_source = js ''settings.json'', r_valid = False, r_error = Some msg_no_hooks,
           r_lifecycles = [],
           r_summary = \<lparr>s_errors = 0, s_warnings = 0, s_hooks = 0\<rparr>\<rparr>"
  using missing_hooks_reported [of "JObj [(js ''permissions'', JObj [])]" None example_host "js ''settings.json''"]
    missing_hooks_reported [of "JObj [(js ''hooks'', JStr (js ''none''))]" "Some (JStr (js ''none''))"
      example_host "js ''settings.json''"]
  by (simp add: js_def)

text \<open>
  Claim C3 at sources whose \<^verbatim>\<open>hooks\<close> key holds an array, which is not an object of the
  configuration format, and at the source \<^verbatim>\<open>null\<close>, which has no \<^verbatim>\<open>hooks\<close> key; the
  source is the global settings file, the only one checked. The guard tests
  \<^verbatim>\<open>typeof config.hooks !== "object"\<close>, which an array passes. For
  \<^verbatim>\<open>{"hooks": [5]}\<close> the validator records no top-level error, takes the index
  \<^verbatim>\<open>0\<close> for the name of a lifecycle and reports it in the per-lifecycle report, with
  one error counted; for \<^verbatim>\<open>{"hooks": []}\<close> it records no error at all, the source
  stays valid and the run exits with status 0; for \<^verbatim>\<open>null\<close> the read of the key
  throws and no result is recorded. The claim has one top-level error, an empty
  per-lifecycle report and no per-lifecycle diagnostic in all three cases.
\<close>

theorem hooks_array_not_reported:
  "main (example_host\<lparr>read_json :=
            (\<lambda>p. if p = js ''/home/dev/.claude/settings.json''
                 then Some (JObj [(js ''hooks'', JArr [JNum (Fin 5)])]) else None)\<rparr>)
     [js ''--global'']
   = Inr (1, [\<lparr>r_source = js ''/home/dev/.claude/settings.json'', r_valid = True,
                r_error = None,
                r_lifecycles = [(js ''0'', LcFailed (msg_unknown_lifecycle (js ''0'')))],
                r_summary = \<lparr>s_errors = 1, s_warnings = 0, s_hooks = 0\<rparr>\<rparr>]) \<and>
   main (example_host\<lparr>read_json :=
            (\<lambda>p. if p = js ''/home/dev/.claude/settings.json''
                 then Some (JObj [(js ''hooks'', JArr [])]) else None)\<rparr>)
     [js ''--global'']
   = Inr (0, [\<lparr>r_source = js ''/home/dev/.claude/settings.json'', r_valid = True,
                r_error = None, r_lifecycles = [],
                r_summary = \<lparr>s_errors = 0, s_warnings = 0, s_hooks = 0\<rparr>\<rparr>]) \<and>
   main (example_host\<lparr>read_json :=
            (\<lambda>p. if p = js ''/home/dev/.claude/settings.json'' then Some JNull else None)\<rparr>)
     [js ''--global'']
   = Inl TypeError"
  by (simp add: main_def check_global_def example_host_def eval_hooks msg_unknown_lifecycle_def
      show_nat.simps js_def)

subsection \<open>Matchers: claims C2 and C10\<close>

text \<open>
  Claim C2, amended. A matcher string is accepted, with no diagnostic, exactly when it is
  \<^verbatim>\<open>*\<close>, an alphabetic identifier, an identifier followed by a pipe and a non-empty
  string of letters and pipes, or an identifier followed by a parenthesized argument that
  holds no line terminator. Every other string gets exactly one diagnostic, and that
  diagnostic is an issue of the entry, not a warning: an entry with such a matcher and no
  hook action has one issue and no warning, the source that holds such an entry under a
  valid lifecycle has a positive error count, and the run exits with status 1.
\<close>

theorem matcher_validation:
  "validateMatcher (Some (JStr m)) =
     (if accepted_shape m then \<lparr>m_valid = True, m_error = None\<rparr>
      else \<lparr>m_valid = False,
            m_error = Some (if m = [] then msg_matcher_empty else msg_matcher_syntax)\<rparr>) \<and>
   validate_entry h lc i (JObj [(js ''matcher'', JStr m), (js ''hooks'', JArr [])]) res =
     Inr (\<lparr>e_index = i, e_matcher = Some (JStr m),
           e_issues = (if accepted_shape m then []
                       else [if m = [] then msg_matcher_empty else msg_matcher_syntax]),
           e_warnings = []\<rparr>, res) \<and>
   (\<not> accepted_shape m \<and> get_prop entry (js ''matcher'') = Inr (Some (JStr m)) \<and>
    entry \<in> set es \<and> (lc, JArr es) \<in> set (object_entries hooks) \<and>
    lc \<in> set CONFIG_validLifecycles \<and> get_prop config (js ''hooks'') = Inr (Some hooks) \<and>
    validateHooksConfig h config src = Inr r \<and> r \<in> set rs
    \<longrightarrow> 0 < s_errors (r_summary r) \<and> exit_status rs = 1)"
proof (intro conjI impI)
  show "validateMatcher (Some (JStr m)) =
     (if accepted_shape m then \<lparr>m_valid = True, m_error = None\<rparr>
      else \<lparr>m_valid = False,
            m_error = Some (if m = [] then msg_matcher_empty else msg_matcher_syntax)\<rparr>)"
    by (rule validateMatcher_string)
  show "validate_entry h lc i (JObj [(js ''matcher'', JStr m), (js ''hooks'', JArr [])]) res =
     Inr (\<lparr>e_index = i, e_matcher = Some (JStr m),
           e_issues = (if accepted_shape m then []
                       else [if m = [] then msg_matcher_empty else msg_matcher_syntax]),
           e_warnings = []\<rparr>, res)"
    by (rule validate_entry_no_hooks)
next
  assume a: "\<not> accepted_shape m \<and> get_prop entry (js ''matcher'') = Inr (Some (JStr m)) \<and>
    entry \<in> set es \<and> (lc, JArr es) \<in> set (object_entries hooks) \<and>
    lc \<in> set CONFIG_validLifecycles \<and> get_prop config (js ''hooks'') = Inr (Some hooks) \<and>
    validateHooksConfig h config src = Inr r \<and> r \<in> set rs"
  then have loop: "lifecycles_loop h (object_entries hooks)
           \<lparr>r_source = src, r_valid = True, r_error = None, r_lifecycles = [],
             r_summary = \<lparr>s_errors = 0, s_warnings = 0, s_hooks = 0\<rparr>\<rparr> = Inr r"
    using config_entries by blast
  have "s_errors (r_summary \<lparr>r_source = src, r_valid = True, r_error = None, r_lifecycles = [],
             r_summary = \<lparr>s_errors = 0, s_warnings = 0, s_hooks = 0\<rparr>\<rparr>) < s_errors (r_summary r)"
  proof (rule lifecycles_loop_errors [OF loop])
    show "(lc, JArr es) \<in> set (object_entries hooks)" using a by simp
    show "lc \<in> set CONFIG_validLifecycles" using a by simp
    show "entry \<in> set es" using a by simp
    show "\<And>j r er r'. validate_entry h lc j entry r = Inr (er, r') \<Longrightarrow> e_issues er \<noteq> []"
      using a bad_matcher_has_issue by blast
  qed
  then show pos: "0 < s_errors (r_summary r)" by simp
  with a show "exit_status rs = 1" by (auto simp: exit_status_iff)
qed

text \<open>
  The claim as stated fails: the matcher \<^verbatim>\<open>invalid matcher!!\<close> alone gives the source one
  error and no warning, and the exit status 1.
\<close>

theorem invalid_matcher_counts_as_error:
  "validateHooksConfig example_host
     (JObj [(js ''hooks'', JObj [(js ''PreToolUse'',
        JArr [JObj [(js ''matcher'', JStr (js ''invalid matcher!!'')), (js ''hooks'', JArr [])]])])])
     (js ''settings.json'')
   = Inr \<lparr>r_source = js ''settings.json'', r_valid = False, r_error = None,
          r_lifecycles = [(js ''PreToolUse'', LcChecked False
             [\<lparr>e_index = 0, e_matcher = Some (JStr (js ''invalid matcher!!'')),
               e_issues = [msg_matcher_syntax], e_warnings = []\<rparr>])],
          r_summary = \<lparr>s_errors = 1, s_warnings = 0, s_hooks = 0\<rparr>\<rparr> \<and>
   exit_status [\<lparr>r_source = js ''settings.json'', r_valid = False, r_error = None,
          r_lifecycles = [(js ''PreToolUse'', LcChecked False
             [\<lparr>e_index = 0, e_matcher = Some (JStr (js ''invalid matcher!!'')),
               e_issues = [msg_matcher_syntax], e_warnings = []\<rparr>])],
          r_summary = \<lparr>s_errors = 1, s_warnings = 0, s_hooks = 0\<rparr>\<rparr>] = 1"
  by (simp add: eval_hooks)

theorem matcher_validation_witness:
  "\<not> accepted_shape (js ''invalid matcher!!'') \<and>
   validateHooksConfig example_host
     (JObj [(js ''hooks'', JObj [(js ''PreToolUse'',
        JArr [JObj [(js ''matcher'', JStr (js ''invalid matcher!!'')), (js ''hooks'', JArr [])]])])])
     (js ''settings.json'')
   = Inr \<lparr>r_source = js ''settings.json'', r_valid = False, r_error = None,
          r_lifecycles = [(js ''PreToolUse'', LcChecked False
             [\<lparr>e_index = 0, e_matcher = Some (JStr (js ''invalid matcher!!'')),
               e_issues = [msg_matcher_syntax], e_warnings = []\<rparr>])],
          r_summary = \<lparr>s_errors = 1, s_warnings = 0, s_hooks = 0\<rparr>\<rparr> \<and>
   exit_status [\<lparr>r_source = js ''settings.json'', r_valid = False, r_error = None,
          r_lifecycles = [(js ''PreToolUse'', LcChecked False
             [\<lparr>e_index = 0, e_matcher = Some (JStr (js ''invalid matcher!!'')),
               e_issues = [msg_matcher_syntax], e_warnings = []\<rparr>])],
          r_summary = \<lparr>s_errors = 1, s_warnings = 0, s_hooks = 0\<rparr>\<rparr>] = 1 \<and>
   accepted_shape (js ''Write|Edit'') \<and>
   validateMatcher (Some (JStr (js ''Write|Edit''))) = \<lparr>m_valid = True, m_error = None\<rparr>"
proof -
  let ?m = "js ''invalid matcher!!''"
  let ?entry = "JObj [(js ''matcher'', JStr ?m), (js ''hooks'', JArr [])]"
  let ?hooks = "JObj [(js ''PreToolUse'', JArr [?entry])]"
  let ?config = "JObj [(js ''hooks'', ?hooks)]"
  let ?r = "\<lparr>r_source = js ''settings.json'', r_valid = False, r_error = None,
          r_lifecycles = [(js ''PreToolUse'', LcChecked False
             [\<lparr>e_index = 0, e_matcher = Some (JStr ?m),
               e_issues = [msg_matcher_syntax], e_warnings = []\<rparr>])],
          r_summary = \<lparr>s_errors = 1, s_warnings = 0, s_hooks = 0\<rparr>\<rparr>"
  note inst = matcher_validation [of ?m example_host "js ''PreToolUse''" 0 _ ?entry "[?entry]" ?hooks
      ?config "js ''settings.json''" ?r "[?r]"]
  have v: "validateMatcher (Some (JStr ?m)) = \<lparr>m_valid = False, m_error = Some msg_matcher_syntax\<rparr>"
    by (simp add: eval_hooks)
  with inst have bad: "\<not> accepted_shape ?m" by (auto split: if_splits)
  have run: "validateHooksConfig example_host ?config (js ''settings.json'') = Inr ?r"
    by (simp add: eval_hooks)
  have pre: "get_prop ?entry (js ''matcher'') = Inr (Some (JStr ?m)) \<and> ?entry \<in> set [?entry] \<and>
      (js ''PreToolUse'', JArr [?entry]) \<in> set (object_entries ?hooks) \<and>
      js ''PreToolUse'' \<in> set CONFIG_validLifecycles \<and>
      get_prop ?config (js ''hooks'') = Inr (Some ?hooks) \<and> ?r \<in> set [?r]"
    by (simp add: CONFIG_validLifecycles_def js_def)
  from inst bad run pre have "exit_status [?r] = 1" by blast
  moreover have w: "validateMatcher (Some (JStr (js ''Write|Edit''))) = \<lparr>m_valid = True, m_error = None\<rparr>"
    by (simp add: eval_hooks)
  moreover from w matcher_validation [of "js ''Write|Edit''"] have "accepted_shape (js ''Write|Edit'')"
    by (auto split: if_splits)
  ultimately show ?thesis using bad run by simp
qed

text \<open>
  Claim C10, amended. For every matcher string made of an alphabetic identifier, a pipe and
  then a non-empty string of letters and pipes (\<^verbatim>\<open>Write||\<close>, \<^verbatim>\<open>Write||Edit\<close>,
  \<^verbatim>\<open>Write|Edit|\<close>), matcher validation accepts it and an entry with that matcher and no
  hook action gets no issue and no warning: the segments between the pipes may be empty.
  Something must follow the first pipe.
\<close>

theorem pipe_list_accepted:
  "ident a \<Longrightarrow> r \<noteq> [] \<Longrightarrow> list_all (\<lambda>c. is_alpha c \<or> c = 0x7C) r \<Longrightarrow>
     validateMatcher (Some (JStr (a @ [0x7C] @ r))) = \<lparr>m_valid = True, m_error = None\<rparr> \<and>
     validate_entry h lc i (JObj [(js ''matcher'', JStr (a @ [0x7C] @ r)), (js ''hooks'', JArr [])]) res
       = Inr (\<lparr>e_index = i, e_matcher = Some (JStr (a @ [0x7C] @ r)), e_issues = [],
               e_warnings = []\<rparr>, res)"
proof -
  assume "ident a" "r \<noteq> []" "list_all (\<lambda>c. is_alpha c \<or> c = 0x7C) r"
  then have "accepted_shape (a @ [0x7C] @ r)" unfolding accepted_shape_def by blast
  then show ?thesis by (simp add: validateMatcher_string validate_entry_no_hooks)
qed

text \<open>
  The claim as stated fails for an identifier followed by one pipe: \<^verbatim>\<open>Write|\<close> has the
  segments \<^verbatim>\<open>Write\<close> and the empty string, and it is rejected.
\<close>

theorem trailing_pipe_rejected:
  "split_on 0x7C (js ''Write|'') = [js ''Write'', []] \<and>
   validateMatcher (Some (JStr (js ''Write|''))) = \<lparr>m_valid = False, m_error = Some msg_matcher_syntax\<rparr>"
  by (simp add: validateMatcher_def validPatterns_def js_def is_alpha_def is_dot_def Plus_def Lit_def)

theorem pipe_list_accepted_witness:
  "ident (js ''Write'') \<and> js ''|Edit'' \<noteq> [] \<and> list_all (\<lambda>c. is_alpha c \<or> c = 0x7C) (js ''|Edit'') \<and>
   validateMatcher (Some (JStr (js ''Write||Edit''))) = \<lparr>m_valid = True, m_error = None\<rparr>"
  using pipe_list_accepted [of "js ''Write''" "js ''|Edit''"]
  by (simp add: ident_def is_alpha_def js_def)

subsection \<open>Timeouts: claims C4 and C7\<close>











lemma timeout_not_number:
  assumes "v \<noteq> JNull" and "typeof (Some v) \<noteq> TNumber"
  shows "validateTimeout ns (Some v) lc =
           (case to_string ns v of
              Inl e \<Rightarrow> Inl e
            | Inr shown \<Rightarrow>
                Inr \<lparr>t_valid = False, t_error = Some (msg_timeout_positive shown),
                      t_warning = None\<rparr>)"
  using assms by (simp add: validateTimeout_def to_string_opt_def)




text \<open>
  Where the conversion of the timeout to a string throws, no message can be built and the
  validation of the action throws: so for the timeout \<^verbatim>\<open>{"toString": 1}\<close>.
\<close>

lemma timeout_conversion_throws:
  "v \<noteq> JNull \<Longrightarrow> typeof (Some v) \<noteq> TNumber \<Longrightarrow> to_string ns v = Inl e \<Longrightarrow>
     validateTimeout ns (Some v) lc = Inl e"
  by (simp add: timeout_not_number)

lemma timeout_conversion_throws_example:
  "validateTimeout (num_str example_host) (Some (JObj [(js ''toString'', JNum (Fin 1))]))
     (js ''PreToolUse'')
   = Inl TypeError"
  using timeout_conversion_throws [of "JObj [(js ''toString'', JNum (Fin 1))]"
      "num_str example_host" TypeError "js ''PreToolUse''"]
  by (simp add: js_def)

lemma msg_timeout_unset_nonempty: "msg_timeout_unset \<noteq> []"
  by (simp add: msg_timeout_unset_def)

lemma validateTimeout_absent:
  "t = None \<or> t = Some JNull \<Longrightarrow>
     validateTimeout ns t lc =
       Inr \<lparr>t_valid = True, t_error = None, t_warning = Some msg_timeout_unset\<rparr>"
  by (auto simp: validateTimeout_def)

lemma validateHook_absent:
  assumes "validateHook h hook lc = Inr hr" and "timeout_absent hook"
  shows "hr_warnings hr = [msg_timeout_unset] \<and>
         (\<exists>ty tis c cmd. get_prop hook (js ''type'') = Inr ty \<and> type_issues h ty = Inr tis \<and>
            get_prop hook (js ''command'') = Inr c \<and> command_issues h c = Inr cmd \<and>
            hr_issues hr = tis @ cmd)"
proof -
  from assms(1) obtain ty tis c cmd t tr where p: "get_prop hook (js ''type'') = Inr ty"
    "type_issues h ty = Inr tis"
    "get_prop hook (js ''command'') = Inr c" "command_issues h c = Inr cmd"
    "get_prop hook (js ''timeout'') = Inr t"
    "validateTimeout (num_str h) t lc = Inr tr"
    "hr_issues hr = tis @ cmd @ timeout_issues tr"
    "hr_warnings hr = timeout_warnings tr"
    by (rule validateHook_parts)
  from p(5) assms(2) have "t = None \<or> t = Some JNull" by (auto simp: timeout_absent_def)
  from validateTimeout_absent [OF this, of "num_str h" lc] p(6)
  have "tr = \<lparr>t_valid = True, t_error = None, t_warning = Some msg_timeout_unset\<rparr>" by simp
  with p show ?thesis
    by (auto simp: timeout_issues_def timeout_warnings_def msg_timeout_unset_nonempty)
qed

lemma source_actions_member:
  assumes "get_prop entry (js ''hooks'') = Inr (Some (JArr hs))" and "action \<in> set hs"
    and "entry \<in> set es" and "(lc, JArr es) \<in> set (object_entries hooks)"
    and "lc \<in> set CONFIG_validLifecycles"
  shows "(lc, action) \<in> set (source_actions hooks)"
proof -
  from assms(1,2) have "action \<in> set (entry_actions entry)" by (simp add: entry_actions_def)
  with assms(3) have "action \<in> set (concat (map entry_actions es))" by auto
  with assms(5) have "(lc, action) \<in> set (lifecycle_actions (lc, JArr es))"
    by (simp add: lifecycle_actions_def)
  with assms(4) show ?thesis unfolding source_actions_def by auto
qed

text \<open>
  Claim C7, amended. For every hook action whose \<^verbatim>\<open>timeout\<close> is absent (or \<^verbatim>\<open>null\<close>),
  timeout validation produces no error and exactly one warning, the notice that the
  default applies: the issues of the action are those of its type and its command, and its
  warnings are that notice alone. The counts of a source are the sums over the actions
  that the validator visits, with the errors of the structure around them, and the
  actions in the \<^verbatim>\<open>hooks\<close> array of an entry under a valid lifecycle are visited. So in every
  source that is validated to the end, such an action adds exactly one to the warning
  count, which is one plus the warnings of the other actions, and it adds to the error
  count the issues of its type and of its command only, nothing for its timeout. Warnings
  never change the exit status, which is 0 when no checked source has an error.
\<close>

theorem absent_timeout_notice:
  "(t = None \<or> t = Some JNull \<longrightarrow>
      validateTimeout ns t lc =
        Inr \<lparr>t_valid = True, t_error = None, t_warning = Some msg_timeout_unset\<rparr>) \<and>
   (timeout_absent action \<and> validateHook h action lc = Inr hr \<longrightarrow>
      hr_warnings hr = [msg_timeout_unset] \<and>
      (\<exists>ty tis c cmd. get_prop action (js ''type'') = Inr ty \<and> type_issues h ty = Inr tis \<and>
         get_prop action (js ''command'') = Inr c \<and> command_issues h c = Inr cmd \<and>
         hr_issues hr = tis @ cmd)) \<and>
   (get_prop config (js ''hooks'') = Inr (Some hooks) \<and>
    validateHooksConfig h config src = Inr r \<longrightarrow>
      s_warnings (r_summary r) = sum_list (map (action_warnings h) (source_actions hooks)) \<and>
      s_errors (r_summary r) =
        structural_errors hooks + sum_list (map (action_errors h) (source_actions hooks))) \<and>
   (get_prop entry (js ''hooks'') = Inr (Some (JArr hs)) \<and> action \<in> set hs \<and>
    entry \<in> set es \<and> (lc, JArr es) \<in> set (object_entries hooks) \<and>
    lc \<in> set CONFIG_validLifecycles \<longrightarrow> (lc, action) \<in> set (source_actions hooks)) \<and>
   (timeout_absent action \<and> (lc, action) \<in> set (source_actions hooks) \<and>
    get_prop config (js ''hooks'') = Inr (Some hooks) \<and>
    validateHooksConfig h config src = Inr r \<longrightarrow>
      s_warnings (r_summary r) =
        1 + sum_list (map (action_warnings h) (remove1 (lc, action) (source_actions hooks))) \<and>
      (\<exists>ty tis c cmd. get_prop action (js ''type'') = Inr ty \<and> type_issues h ty = Inr tis \<and>
         get_prop action (js ''command'') = Inr c \<and> command_issues h c = Inr cmd \<and>
         s_errors (r_summary r) =
           structural_errors hooks + (length tis + length cmd)
             + sum_list (map (action_errors h) (remove1 (lc, action) (source_actions hooks))))) \<and>
   (list_all (\<lambda>r. s_errors (r_summary r) = 0) rs \<longrightarrow> exit_status rs = 0)"
proof (intro conjI impI)
  assume "t = None \<or> t = Some JNull"
  then show "validateTimeout ns t lc =
        Inr \<lparr>t_valid = True, t_error = None, t_warning = Some msg_timeout_unset\<rparr>"
    by (rule validateTimeout_absent)
next
  assume a: "timeout_absent action \<and> validateHook h action lc = Inr hr"
  then have *: "hr_warnings hr = [msg_timeout_unset] \<and>
         (\<exists>ty tis c cmd. get_prop action (js ''type'') = Inr ty \<and> type_issues h ty = Inr tis \<and>
            get_prop action (js ''command'') = Inr c \<and> command_issues h c = Inr cmd \<and>
            hr_issues hr = tis @ cmd)"
    using validateHook_absent by blast
  from * show "hr_warnings hr = [msg_timeout_unset]" by simp
  from * show "\<exists>ty tis c cmd. get_prop action (js ''type'') = Inr ty \<and> type_issues h ty = Inr tis \<and>
         get_prop action (js ''command'') = Inr c \<and> command_issues h c = Inr cmd \<and>
         hr_issues hr = tis @ cmd" by simp
next
  assume a: "get_prop config (js ''hooks'') = Inr (Some hooks) \<and>
    validateHooksConfig h config src = Inr r"
  then show "s_warnings (r_summary r) = sum_list (map (action_warnings h) (source_actions hooks))"
    using source_counts(2) by blast
  from a show "s_errors (r_summary r) =
        structural_errors hooks + sum_list (map (action_errors h) (source_actions hooks))"
    using source_counts(1) by blast
next
  assume "get_prop entry (js ''hooks'') = Inr (Some (JArr hs)) \<and> action \<in> set hs \<and>
    entry \<in> set es \<and> (lc, JArr es) \<in> set (object_entries hooks) \<and>
    lc \<in> set CONFIG_validLifecycles"
  then show "(lc, action) \<in> set (source_actions hooks)"
    using source_actions_member by blast
next
  assume a: "timeout_absent action \<and> (lc, action) \<in> set (source_actions hooks) \<and>
    get_prop config (js ''hooks'') = Inr (Some hooks) \<and>
    validateHooksConfig h config src = Inr r"
  then have g: "get_prop config (js ''hooks'') = Inr (Some hooks)"
    and run: "validateHooksConfig h config src = Inr r"
    and m: "(lc, action) \<in> set (source_actions hooks)" and ab: "timeout_absent action"
    by simp_all
  from source_actions_ok [OF g run m] obtain hr' where hr': "validateHook h action lc = Inr hr'" ..
  from validateHook_absent [OF hr' ab] obtain ty tis c cmd where
    w: "hr_warnings hr' = [msg_timeout_unset]"
    and p: "get_prop action (js ''type'') = Inr ty" "type_issues h ty = Inr tis"
      "get_prop action (js ''command'') = Inr c" "command_issues h c = Inr cmd"
    and i: "hr_issues hr' = tis @ cmd"
    by blast
  from hr' w have aw: "action_warnings h (lc, action) = 1" by (simp add: action_warnings_def)
  from hr' i have ae: "action_errors h (lc, action) = length tis + length cmd"
    by (simp add: action_errors_def)
  from sum_list_map_remove1 [OF m, of "action_warnings h"] aw source_counts(2) [OF g run]
  show "s_warnings (r_summary r) =
        1 + sum_list (map (action_warnings h) (remove1 (lc, action) (source_actions hooks)))"
    by simp
  from sum_list_map_remove1 [OF m, of "action_errors h"] ae source_counts(1) [OF g run]
  have "s_errors (r_summary r) =
           structural_errors hooks + (length tis + length cmd)
             + sum_list (map (action_errors h) (remove1 (lc, action) (source_actions hooks)))"
    by simp
  with p show "\<exists>ty tis c cmd. get_prop action (js ''type'') = Inr ty \<and> type_issues h ty = Inr tis \<and>
         get_prop action (js ''command'') = Inr c \<and> command_issues h c = Inr cmd \<and>
         s_errors (r_summary r) =
           structural_errors hooks + (length tis + length cmd)
             + sum_list (map (action_errors h) (remove1 (lc, action) (source_actions hooks)))"
    by blast
next
  assume "list_all (\<lambda>r. s_errors (r_summary r) = 0) rs"
  then show "exit_status rs = 0" by (auto simp: exit_status_iff list_all_iff)
qed

lemma absent_timeout_hook:
  "validateHook example_host
     (JObj [(js ''type'', JStr (js ''command'')),
            (js ''command'', JStr (js ''node /opt/hooks/check.js''))])
     (js ''PreToolUse'')
   = Inr \<lparr>hr_issues = [], hr_warnings = [msg_timeout_unset]\<rparr>"
  by (simp add: eval_path js_def)

text \<open>
  The claim as stated fails: an action with a valid type, an existing script and no
  \<^verbatim>\<open>timeout\<close> gives its source one warning.
\<close>

theorem absent_timeout_counts_as_warning:
  "validateHooksConfig example_host
     (JObj [(js ''hooks'', JObj [(js ''PreToolUse'',
        JArr [JObj [(js ''matcher'', JStr (js ''Bash'')),
                    (js ''hooks'', JArr [JObj [(js ''type'', JStr (js ''command'')),
                        (js ''command'', JStr (js ''node /opt/hooks/check.js''))]])]])])])
     (js ''settings.json'')
   = Inr \<lparr>r_source = js ''settings.json'', r_valid = True, r_error = None,
          r_lifecycles = [(js ''PreToolUse'', LcChecked True
             [\<lparr>e_index = 0, e_matcher = Some (JStr (js ''Bash'')),
               e_issues = [], e_warnings = [msg_timeout_unset]\<rparr>])],
          r_summary = \<lparr>s_errors = 0, s_warnings = 1, s_hooks = 1\<rparr>\<rparr>"
  by (simp add: eval_hooks eval_path js_def)

theorem absent_timeout_notice_witness:
  "timeout_absent (JObj [(js ''type'', JStr (js ''command'')),
                         (js ''command'', JStr (js ''node /opt/hooks/check.js''))]) \<and>
   validateTimeout (num_str example_host) None (js ''PreToolUse'')
     = Inr \<lparr>t_valid = True, t_error = None, t_warning = Some msg_timeout_unset\<rparr> \<and>
   validateHook example_host
     (JObj [(js ''type'', JStr (js ''command'')),
            (js ''command'', JStr (js ''node /opt/hooks/check.js''))])
     (js ''PreToolUse'')
   = Inr \<lparr>hr_issues = [], hr_warnings = [msg_timeout_unset]\<rparr> \<and>
   source_actions (JObj [(js ''PreToolUse'',
        JArr [JObj [(js ''matcher'', JStr (js ''Bash'')),
                    (js ''hooks'', JArr [JObj [(js ''type'', JStr (js ''command'')),
                        (js ''command'', JStr (js ''node /opt/hooks/check.js''))],
                      JObj [(js ''type'', JStr (js ''command'')),
                        (js ''command'', JStr (js ''node /opt/hooks/check.js'')),
                        (js ''timeout'', JNull)]])]])])
   = [(js ''PreToolUse'', JObj [(js ''type'', JStr (js ''command'')),
                        (js ''command'', JStr (js ''node /opt/hooks/check.js''))]),
      (js ''PreToolUse'', JObj [(js ''type'', JStr (js ''command'')),
                        (js ''command'', JStr (js ''node /opt/hooks/check.js'')),
                        (js ''timeout'', JNull)])] \<and>
   validateHooksConfig example_host
     (JObj [(js ''hooks'', JObj [(js ''PreToolUse'',
        JArr [JObj [(js ''matcher'', JStr (js ''Bash'')),
                    (js ''hooks'', JArr [JObj [(js ''type'', JStr (js ''command'')),
                        (js ''command'', JStr (js ''node /opt/hooks/check.js''))],
                      JObj [(js ''type'', JStr (js ''command'')),
                        (js ''command'', JStr (js ''node /opt/hooks/check.js'')),
                        (js ''timeout'', JNull)]])]])])])
     (js ''settings.json'')
   = Inr \<lparr>r_source = js ''settings.json'', r_valid = True, r_error = None,
          r_lifecycles = [(js ''PreToolUse'', LcChecked True
             [\<lparr>e_index = 0, e_matcher = Some (JStr (js ''Bash'')),
               e_issues = [], e_warnings = [msg_timeout_unset, msg_timeout_unset]\<rparr>])],
          r_summary = \<lparr>s_errors = 0, s_warnings = 2, s_hooks = 2\<rparr>\<rparr> \<and>
   1 + sum_list (map (action_warnings example_host)
         [(js ''PreToolUse'', JObj [(js ''type'', JStr (js ''command'')),
                        (js ''command'', JStr (js ''node /opt/hooks/check.js'')),
                        (js ''timeout'', JNull)])]) = 2 \<and>
   structural_errors (JObj [(js ''PreToolUse'',
        JArr [JObj [(js ''matcher'', JStr (js ''Bash'')),
                    (js ''hooks'', JArr [JObj [(js ''type'', JStr (js ''command'')),
                        (js ''command'', JStr (js ''node /opt/hooks/check.js''))],
                      JObj [(js ''type'', JStr (js ''command'')),
                        (js ''command'', JStr (js ''node /opt/hooks/check.js'')),
                        (js ''timeout'', JNull)]])]])])
     + sum_list (map (action_errors example_host)
         [(js ''PreToolUse'', JObj [(js ''type'', JStr (js ''command'')),
                        (js ''command'', JStr (js ''node /opt/hooks/check.js''))]),
          (js ''PreToolUse'', JObj [(js ''type'', JStr (js ''command'')),
                        (js ''command'', JStr (js ''node /opt/hooks/check.js'')),
                        (js ''timeout'', JNull)])]) = 0 \<and>
   exit_status [\<lparr>r_source = js ''settings.json'', r_valid = True, r_error = None,
          r_lifecycles = [(js ''PreToolUse'', LcChecked True
             [\<lparr>e_index = 0, e_matcher = Some (JStr (js ''Bash'')),
               e_issues = [], e_warnings = [msg_timeout_unset, msg_timeout_unset]\<rparr>])],
          r_summary = \<lparr>s_errors = 0, s_warnings = 2, s_hooks = 2\<rparr>\<rparr>] = 0"
proof -
  let ?hookA = "JObj [(js ''type'', JStr (js ''command'')),
                   (js ''command'', JStr (js ''node /opt/hooks/check.js''))]"
  let ?hookB = "JObj [(js ''type'', JStr (js ''command'')),
                   (js ''command'', JStr (js ''node /opt/hooks/check.js'')),
                   (js ''timeout'', JNull)]"
  let ?entry = "JObj [(js ''matcher'', JStr (js ''Bash'')), (js ''hooks'', JArr [?hookA, ?hookB])]"
  let ?hooks = "JObj [(js ''PreToolUse'', JArr [?entry])]"
  let ?config = "JObj [(js ''hooks'', ?hooks)]"
  let ?hr = "\<lparr>hr_issues = [], hr_warnings = [msg_timeout_unset]\<rparr>"
  let ?r = "\<lparr>r_source = js ''settings.json'', r_valid = True, r_error = None,
          r_lifecycles = [(js ''PreToolUse'', LcChecked True
             [\<lparr>e_index = 0, e_matcher = Some (JStr (js ''Bash'')),
               e_issues = [], e_warnings = [msg_timeout_unset, msg_timeout_unset]\<rparr>])],
          r_summary = \<lparr>s_errors = 0, s_warnings = 2, s_hooks = 2\<rparr>\<rparr>"
  note inst = absent_timeout_notice [of None "num_str example_host" "js ''PreToolUse''" ?hookA
      example_host ?hr ?config ?hooks "js ''settings.json''" ?r ?entry "[?hookA, ?hookB]"
      "[?entry]" "[?r]"]
  have ab: "timeout_absent ?hookA" by (simp add: timeout_absent_def js_def)
  have v: "validateHook example_host ?hookA (js ''PreToolUse'') = Inr ?hr"
    by (rule absent_timeout_hook)
  have g: "get_prop ?config (js ''hooks'') = Inr (Some ?hooks)" by (simp add: js_def)
  have c: "validateHooksConfig example_host ?config (js ''settings.json'') = Inr ?r"
    by (simp add: eval_hooks eval_path js_def)
  have sa: "source_actions ?hooks = [(js ''PreToolUse'', ?hookA), (js ''PreToolUse'', ?hookB)]"
    by (simp add: source_actions_def lifecycle_actions_def entry_actions_def
        CONFIG_validLifecycles_def js_def)
  have l: "list_all (\<lambda>r. s_errors (r_summary r) = 0) [?r]" by simp
  from inst have t: "validateTimeout (num_str example_host) None (js ''PreToolUse'')
     = Inr \<lparr>t_valid = True, t_error = None, t_warning = Some msg_timeout_unset\<rparr>" by blast
  from inst ab v have w: "hr_warnings ?hr = [msg_timeout_unset]" by blast
  have pre: "get_prop ?entry (js ''hooks'') = Inr (Some (JArr [?hookA, ?hookB])) \<and>
      ?hookA \<in> set [?hookA, ?hookB] \<and> ?entry \<in> set [?entry] \<and>
      (js ''PreToolUse'', JArr [?entry]) \<in> set (object_entries ?hooks) \<and>
      js ''PreToolUse'' \<in> set CONFIG_validLifecycles"
    by (simp add: CONFIG_validLifecycles_def js_def)
  from inst pre have m: "(js ''PreToolUse'', ?hookA) \<in> set (source_actions ?hooks)" by blast
  from inst ab m g c sa have "s_warnings (r_summary ?r) =
      1 + sum_list (map (action_warnings example_host)
            (remove1 (js ''PreToolUse'', ?hookA) [(js ''PreToolUse'', ?hookA), (js ''PreToolUse'', ?hookB)]))"
    by simp
  then have one: "1 + sum_list (map (action_warnings example_host) [(js ''PreToolUse'', ?hookB)]) = 2"
    by simp
  from inst g c sa have "s_errors (r_summary ?r) =
      structural_errors ?hooks + sum_list (map (action_errors example_host)
        [(js ''PreToolUse'', ?hookA), (js ''PreToolUse'', ?hookB)])"
    by simp
  then have zero: "structural_errors ?hooks + sum_list (map (action_errors example_host)
        [(js ''PreToolUse'', ?hookA), (js ''PreToolUse'', ?hookB)]) = 0"
    by simp
  from inst l have e: "exit_status [?r] = 0" by blast
  from ab t v sa c one zero e show ?thesis by blast
qed

subsection \<open>The header block: claim C9\<close>

lemma contains_close_Nil: "\<not> contains_close []"
  by (simp add: contains_close_def close_delim_def)

lemma contains_close_Cons:
  "contains_close (c # cs) \<longleftrightarrow> prefix close_delim (c # cs) \<or> contains_close cs"
proof
  assume "contains_close (c # cs)"
  then obtain a b where ab: "c # cs = a @ close_delim @ b" unfolding contains_close_def by blast
  show "prefix close_delim (c # cs) \<or> contains_close cs"
  proof (cases a)
    case Nil
    with ab show ?thesis by (auto simp: prefix_def)
  next
    case (Cons x a')
    with ab have "cs = a' @ close_delim @ b" by simp
    then show ?thesis unfolding contains_close_def by blast
  qed
next
  assume "prefix close_delim (c # cs) \<or> contains_close cs"
  then show "contains_close (c # cs)"
  proof
    assume "prefix close_delim (c # cs)"
    then obtain b where "c # cs = [] @ close_delim @ b" by (auto simp: prefix_def)
    then show ?thesis unfolding contains_close_def by blast
  next
    assume "contains_close cs"
    then obtain a b where "cs = a @ close_delim @ b" unfolding contains_close_def by blast
    then have "c # cs = (c # a) @ close_delim @ b" by simp
    then show ?thesis unfolding contains_close_def by blast
  qed
qed

lemma until_close_None: "until_close s = None \<longleftrightarrow> \<not> contains_close s"
  by (induction s) (auto simp: contains_close_Nil contains_close_Cons split: option.splits)

lemma split_on_nonempty: "split_on d s \<noteq> []"
  by (induction s) (auto split: list.splits)

lemma hd_split_on: "hd (split_on d s) = takeWhile (\<lambda>c. c \<noteq> d) s"
  using split_on_nonempty [of d] by (induction s) (auto split: list.splits)

lemma split_on_first_line:
  "split_on 0x0A content = l # ls \<Longrightarrow> ls \<noteq> [] \<Longrightarrow> prefix (l @ [0x0A]) content"
proof (induction content arbitrary: l)
  case Nil
  then show ?case by simp
next
  case (Cons c cs)
  show ?case
  proof (cases "c = 0x0A")
    case True
    with Cons.prems show ?thesis by simp
  next
    case False
    with Cons.prems obtain l' where "split_on 0x0A cs = l' # ls" "l = c # l'"
      by (auto split: list.splits)
    with Cons.IH [of l'] Cons.prems(2) show ?thesis by simp
  qed
qed

lemma tl_split_on_Cons:
  "tl (split_on d (c # cs)) = (if c = d then split_on d cs else tl (split_on d cs))"
  by (auto split: list.splits)

lemma prefix_dashes_takeWhile:
  "prefix (js ''---'') (takeWhile (\<lambda>c. c \<noteq> 0x0A) s) \<longleftrightarrow> prefix (js ''---'') s"
proof -
  have "\<And>p. 0x0A \<notin> set p \<Longrightarrow> prefix p (takeWhile (\<lambda>c. c \<noteq> 0x0A) s) \<longleftrightarrow> prefix p s"
  proof (induction s)
    case Nil
    then show ?case by simp
  next
    case (Cons c s)
    then show ?case by (cases p) auto
  qed
  then show ?thesis by (simp add: js_def)
qed

lemma contains_close_lines:
  "contains_close s \<longleftrightarrow> list_ex (prefix (js ''---'')) (tl (split_on 0x0A s))"
proof (induction s)
  case Nil
  then show ?case by (simp add: contains_close_Nil)
next
  case (Cons c s)
  show ?case
  proof (cases "c = 0x0A")
    case True
    have "list_ex (prefix (js ''---'')) (split_on 0x0A s) \<longleftrightarrow>
          prefix (js ''---'') (hd (split_on 0x0A s)) \<or> list_ex (prefix (js ''---'')) (tl (split_on 0x0A s))"
      using split_on_nonempty [of "0x0A" s] by (cases "split_on 0x0A s") auto
    with True Cons show ?thesis
      by (simp add: contains_close_Cons tl_split_on_Cons hd_split_on prefix_dashes_takeWhile
          close_delim_def)
  next
    case False
    with Cons split_on_nonempty [of "0x0A" s] show ?thesis
      by (cases "split_on 0x0A s") (simp_all add: contains_close_Cons close_delim_def)
  qed
qed

lemma prefix_open_lines:
  "prefix open_delim content \<longleftrightarrow>
     (\<exists>ls. split_on 0x0A content = js ''---'' # ls \<and> ls = split_on 0x0A (drop (length open_delim) content))"
proof
  assume "prefix open_delim content"
  then obtain rest where "content = open_delim @ rest" by (auto simp: prefix_def)
  then show "\<exists>ls. split_on 0x0A content = js ''---'' # ls \<and> ls = split_on 0x0A (drop (length open_delim) content)"
    using split_on_nonempty [of "0x0A" rest]
    by (cases "split_on 0x0A rest") (auto simp: open_delim_def js_def)
next
  assume "\<exists>ls. split_on 0x0A content = js ''---'' # ls \<and> ls = split_on 0x0A (drop (length open_delim) content)"
  then obtain ls where ls: "split_on 0x0A content = js ''---'' # ls" and "ls \<noteq> []"
    using split_on_nonempty by auto
  from split_on_first_line [OF ls \<open>ls \<noteq> []\<close>] show "prefix open_delim content"
    by (simp add: open_delim_def)
qed

lemma header_block_None:
  "header_block content = None \<longleftrightarrow>
     \<not> (\<exists>l rest. split_on 0x0A content = js ''---'' # l # rest \<and> list_ex (prefix (js ''---'')) rest)"
proof (cases "prefix open_delim content")
  case False
  then have "header_block content = None" by (simp add: header_block_def)
  moreover have "\<not> (\<exists>l rest. split_on 0x0A content = js ''---'' # l # rest \<and> list_ex (prefix (js ''---'')) rest)"
  proof
    assume "\<exists>l rest. split_on 0x0A content = js ''---'' # l # rest \<and> list_ex (prefix (js ''---'')) rest"
    then obtain l rest where s: "split_on 0x0A content = js ''---'' # l # rest" by blast
    from split_on_first_line [OF s] have "prefix open_delim content" by (simp add: open_delim_def)
    with False show False by simp
  qed
  ultimately show ?thesis by simp
next
  case True
  then obtain ls where ls: "split_on 0x0A content = js ''---'' # ls"
    "ls = split_on 0x0A (drop (length open_delim) content)"
    using prefix_open_lines by blast
  obtain l rest where lr: "ls = l # rest" using ls(2) by (metis split_on_nonempty neq_Nil_conv)
  from True have "header_block content = None \<longleftrightarrow> \<not> contains_close (drop (length open_delim) content)"
    by (simp add: header_block_def until_close_None)
  also have "\<dots> \<longleftrightarrow> \<not> list_ex (prefix (js ''---'')) rest"
  proof -
    from ls(2) lr have "tl (split_on 0x0A (drop (length open_delim) content)) = rest"
      by (metis list.sel(3))
    then show ?thesis by (simp add: contains_close_lines)
  qed
  finally show ?thesis using ls(1) lr by simp
qed

lemma parse_None_iff: "parseFrontmatter content = None \<longleftrightarrow> header_block content = None"
  by (simp add: parseFrontmatter_def split: option.splits)

text \<open>
  When \<^verbatim>\<open>parseFrontmatter\<close> gives the no-header signal: exactly when the document does
  not consist of a first line \<^verbatim>\<open>---\<close>, a second line, and further lines of which one
  begins with \<^verbatim>\<open>---\<close>. For a document with no header \<^verbatim>\<open>validateAgent\<close> records
  exactly one error and no warning.
\<close>

lemma no_header_signal:
  "(parseFrontmatter content = None \<longleftrightarrow>
      \<not> (\<exists>l rest. split_on 0x0A content = js ''---'' # l # rest \<and>
                    list_ex (prefix (js ''---'')) rest)) \<and>
   (parseFrontmatter content = None \<longrightarrow>
      validateAgent (Inr content) fileName =
        \<lparr>a_errors = [if prefix (js ''---'') content then msg_bad_frontmatter
                      else msg_no_frontmatter],
          a_warnings = []\<rparr>)"
proof (intro conjI impI)
  show "parseFrontmatter content = None \<longleftrightarrow>
      \<not> (\<exists>l rest. split_on 0x0A content = js ''---'' # l # rest \<and>
                    list_ex (prefix (js ''---'')) rest)"
    unfolding parse_None_iff by (rule header_block_None)
next
  assume "parseFrontmatter content = None"
  then show "validateAgent (Inr content) fileName =
        \<lparr>a_errors = [if prefix (js ''---'') content then msg_bad_frontmatter
                      else msg_no_frontmatter],
          a_warnings = []\<rparr>"
    by (simp add: validateAgent_def)
qed

text \<open>
  Two documents with no header in one directory: the first has no opening delimiter, the
  second has no later line that begins with three dashes. Each gets one error, and the
  second is validated after the first has failed.
\<close>

lemma no_header_example:
  "parseFrontmatter (js ''# Title'' @ [0x0A] @ js ''text'') = None \<and>
   parseFrontmatter (js ''---'' @ [0x0A] @ js ''name: x'' @ [0x0A] @ js ''text'') = None \<and>
   agents_main \<lparr>dir_exists = True, dir_entries = [js ''a.md'', js ''notes.txt'', js ''b.md''],
       read_file = (\<lambda>f. if f = js ''a.md'' then Inr (js ''# Title'' @ [0x0A] @ js ''text'')
                          else Inr (js ''---'' @ [0x0A] @ js ''name: x'' @ [0x0A] @ js ''text''))\<rparr>
     = (1, [(js ''a.md'', \<lparr>a_errors = [msg_no_frontmatter], a_warnings = []\<rparr>),
            (js ''b.md'', \<lparr>a_errors = [msg_bad_frontmatter], a_warnings = []\<rparr>)])"
proof -
  let ?c1 = "js ''# Title'' @ [0x0A] @ js ''text''"
  let ?c2 = "js ''---'' @ [0x0A] @ js ''name: x'' @ [0x0A] @ js ''text''"
  let ?h = "\<lparr>dir_exists = True, dir_entries = [js ''a.md'', js ''notes.txt'', js ''b.md''],
       read_file = (\<lambda>f. if f = js ''a.md'' then Inr ?c1 else Inr ?c2)\<rparr>"
  have s1: "split_on 0x0A ?c1 = [js ''# Title'', js ''text'']"
    and s2: "split_on 0x0A ?c2 = [js ''---'', js ''name: x'', js ''text'']"
    by (simp_all add: js_def)
  from no_header_signal [of ?c1 "js ''a.md''"] s1
  have n1: "parseFrontmatter ?c1 = None" by (simp add: js_def)
  from no_header_signal [of ?c2 "js ''b.md''"] s2
  have n2: "parseFrontmatter ?c2 = None" by (simp add: js_def)
  from no_header_signal [of ?c1 "js ''a.md''"] n1
  have v1: "validateAgent (Inr ?c1) (js ''a.md'') = \<lparr>a_errors = [msg_no_frontmatter], a_warnings = []\<rparr>"
    by (simp add: js_def)
  from no_header_signal [of ?c2 "js ''b.md''"] n2
  have v2: "validateAgent (Inr ?c2) (js ''b.md'') = \<lparr>a_errors = [msg_bad_frontmatter], a_warnings = []\<rparr>"
    by (simp add: js_def)
  have "agents_main ?h = (1, [(js ''a.md'', \<lparr>a_errors = [msg_no_frontmatter], a_warnings = []\<rparr>),
            (js ''b.md'', \<lparr>a_errors = [msg_bad_frontmatter], a_warnings = []\<rparr>)])"
    using v1 v2 by (simp add: agents_main_def Let_def ends_with_def suffix_to_prefix js_def)
  with n1 n2 show ?thesis by simp
qed

text \<open>
  Claim C9 at a document whose opening delimiter is followed by no closing delimiter line:
  its lines are \<^verbatim>\<open>---\<close>, three fields and \<^verbatim>\<open>----\<close>. The claim has the no-header signal
  and one structural error for it. The pattern of \<^verbatim>\<open>parseFrontmatter\<close> ends the header
  at a line feed and three dashes and does not look at what follows them, so the line
  \<^verbatim>\<open>----\<close> closes the header: the parser returns the mapping and \<^verbatim>\<open>validateAgent\<close>
  records no error. The pattern of \<^verbatim>\<open>validateAgent\<close> that finds the body of the same
  document requires the closing dashes to be a whole line, and finds no header.
\<close>

theorem longer_dash_line_closes_header:
  "split_on 0x0A (js ''---'' @ [0x0A] @ js ''name: x'' @ [0x0A] @ js ''description: A helper that reviews the code.''
       @ [0x0A] @ js ''tools: Read'' @ [0x0A] @ js ''----'')
     = [js ''---'', js ''name: x'', js ''description: A helper that reviews the code.'',
        js ''tools: Read'', js ''----''] \<and>
   parseFrontmatter (js ''---'' @ [0x0A] @ js ''name: x'' @ [0x0A] @ js ''description: A helper that reviews the code.''
       @ [0x0A] @ js ''tools: Read'' @ [0x0A] @ js ''----'')
     = Some [(js ''name'', Scalar (js ''x'')),
             (js ''description'', Scalar (js ''A helper that reviews the code.'')),
             (js ''tools'', Scalar (js ''Read''))] \<and>
   a_errors (validateAgent (Inr (js ''---'' @ [0x0A] @ js ''name: x'' @ [0x0A] @ js ''description: A helper that reviews the code.''
       @ [0x0A] @ js ''tools: Read'' @ [0x0A] @ js ''----'')) (js ''x.md'')) = [] \<and>
   body_match (js ''---'' @ [0x0A] @ js ''name: x'' @ [0x0A] @ js ''description: A helper that reviews the code.''
       @ [0x0A] @ js ''tools: Read'' @ [0x0A] @ js ''----'') = None"
  by (simp add: eval_parse eval_agent)

subsection \<open>The required fields: claim C5\<close>

lemma parse_Some_prefix: "parseFrontmatter content = Some data \<Longrightarrow> prefix (js ''---'') content"
  by (auto simp: parseFrontmatter_def header_block_def open_delim_def prefix_def
      split: option.splits if_splits)

lemma not_fm_truthy: "\<not> fm_truthy v \<longleftrightarrow> v = None \<or> v = Some (Scalar [])"
  by (cases v rule: fm_truthy.cases) auto

lemma concat_map_if: "concat (map (\<lambda>x. if P x then [f x] else []) xs) = map f (filter P xs)"
  by (induction xs) auto

lemma inj_msg_missing_field: "inj msg_missing_field"
  by (rule injI) (simp add: msg_missing_field_def)

lemma distinct_REQUIRED_FIELDS: "distinct REQUIRED_FIELDS"
  by (simp add: REQUIRED_FIELDS_def js_def)

text \<open>
  What \<^verbatim>\<open>validateAgent\<close> reports for the required fields. For every descriptor whose
  header parses, and whose \<^verbatim>\<open>model\<close> field is absent or in the valid set, the errors are
  exactly one error naming each required field, in the order \<^verbatim>\<open>name\<close>,
  \<^verbatim>\<open>description\<close>, \<^verbatim>\<open>tools\<close>, that is absent from the parsed mapping or parsed to the
  empty string, with no duplicate and no other error. The test is the truthiness of the
  value, so a field parsed to a list passes, also when the list is empty.
\<close>

lemma required_fields_reported:
  "parseFrontmatter content = Some data \<and>
   (map_of data (js ''model'') = None \<or> includes_model (map_of data (js ''model''))) \<longrightarrow>
     a_errors (validateAgent (Inr content) fileName) =
       map msg_missing_field
         (filter (\<lambda>f. map_of data f = None \<or> map_of data f = Some (Scalar [])) REQUIRED_FIELDS) \<and>
     distinct (a_errors (validateAgent (Inr content) fileName)) \<and>
     length (a_errors (validateAgent (Inr content) fileName)) =
       length (filter (\<lambda>f. map_of data f = None \<or> map_of data f = Some (Scalar [])) REQUIRED_FIELDS)"
proof
  assume a: "parseFrontmatter content = Some data \<and>
   (map_of data (js ''model'') = None \<or> includes_model (map_of data (js ''model'')))"
  then have p: "prefix (js ''---'') content" using parse_Some_prefix by blast
  from a have m: "\<not> (fm_truthy (map_of data (js ''model'')) \<and> \<not> includes_model (map_of data (js ''model'')))"
    by auto
  have e: "a_errors (validateAgent (Inr content) fileName) =
       map msg_missing_field
         (filter (\<lambda>f. map_of data f = None \<or> map_of data f = Some (Scalar [])) REQUIRED_FIELDS)"
    using a p m by (simp add: validateAgent_def Let_def concat_map_if not_fm_truthy)
  have "distinct (map msg_missing_field
         (filter (\<lambda>f. map_of data f = None \<or> map_of data f = Some (Scalar [])) REQUIRED_FIELDS))"
    using distinct_REQUIRED_FIELDS inj_msg_missing_field
    by (simp add: distinct_map inj_on_def inj_def)
  with e show "a_errors (validateAgent (Inr content) fileName) =
       map msg_missing_field
         (filter (\<lambda>f. map_of data f = None \<or> map_of data f = Some (Scalar [])) REQUIRED_FIELDS) \<and>
     distinct (a_errors (validateAgent (Inr content) fileName)) \<and>
     length (a_errors (validateAgent (Inr content) fileName)) =
       length (filter (\<lambda>f. map_of data f = None \<or> map_of data f = Some (Scalar [])) REQUIRED_FIELDS)"
    by simp
qed

text \<open>
  Claim C5 at a descriptor whose header parses and whose required field \<^verbatim>\<open>tools\<close> is
  empty: the key has no value and no item follows it. The field parses to the empty list,
  and \<^verbatim>\<open>validateAgent\<close> reports no error, where the claim has one error naming
  \<^verbatim>\<open>tools\<close>.
\<close>

theorem empty_tools_not_reported:
  "parseFrontmatter (js ''---'' @ [0x0A] @ js ''name: foo'' @ [0x0A]
       @ js ''description: A helper that reviews the code.'' @ [0x0A] @ js ''tools:'' @ [0x0A]
       @ js ''---'' @ [0x0A])
     = Some [(js ''name'', Scalar (js ''foo'')),
             (js ''description'', Scalar (js ''A helper that reviews the code.'')),
             (js ''tools'', Items [])] \<and>
   a_errors (validateAgent (Inr (js ''---'' @ [0x0A] @ js ''name: foo'' @ [0x0A]
       @ js ''description: A helper that reviews the code.'' @ [0x0A] @ js ''tools:'' @ [0x0A]
       @ js ''---'' @ [0x0A])) (js ''foo.md'')) = []"
  by (simp add: eval_parse eval_agent)

lemma required_fields_example:
  "parseFrontmatter (js ''---'' @ [0x0A] @ js ''name: foo'' @ [0x0A] @ js ''---'' @ [0x0A])
     = Some [(js ''name'', Scalar (js ''foo''))] \<and>
   map_of [(js ''name'', Scalar (js ''foo''))] (js ''model'') = None \<and>
   a_errors (validateAgent (Inr (js ''---'' @ [0x0A] @ js ''name: foo'' @ [0x0A] @ js ''---'' @ [0x0A]))
       (js ''foo.md''))
     = [msg_missing_field (js ''description''), msg_missing_field (js ''tools'')]"
proof -
  have p: "parseFrontmatter (js ''---'' @ [0x0A] @ js ''name: foo'' @ [0x0A] @ js ''---'' @ [0x0A])
     = Some [(js ''name'', Scalar (js ''foo''))]"
    by (simp add: eval_parse)
  have m: "map_of [(js ''name'', Scalar (js ''foo''))] (js ''model'') = None"
    by (simp add: js_def)
  from required_fields_reported [of "js ''---'' @ [0x0A] @ js ''name: foo'' @ [0x0A] @ js ''---'' @ [0x0A]"
      "[(js ''name'', Scalar (js ''foo''))]" "js ''foo.md''"] p m
  have "a_errors (validateAgent (Inr (js ''---'' @ [0x0A] @ js ''name: foo'' @ [0x0A] @ js ''---'' @ [0x0A]))
       (js ''foo.md''))
     = map msg_missing_field
         (filter (\<lambda>f. map_of [(js ''name'', Scalar (js ''foo''))] f = None \<or>
                      map_of [(js ''name'', Scalar (js ''foo''))] f = Some (Scalar []))
            REQUIRED_FIELDS)"
    by blast
  also have "\<dots> = [msg_missing_field (js ''description''), msg_missing_field (js ''tools'')]"
    by (simp add: REQUIRED_FIELDS_def js_def)
  finally show ?thesis using p m by simp
qed

subsection \<open>The manifest: claim C6\<close>

lemma format_errors_not_count: "e \<in> set (format_errors x) \<Longrightarrow> \<not> is_count_mismatch e"
  by (auto simp: format_errors_def is_count_mismatch_def msg_entry_type_def
      msg_entry_directory_def msg_entry_suffix_def js_def split: if_splits)

lemma existence_errors_not_count:
  "e \<in> set (existence_errors h x) \<Longrightarrow> \<not> is_count_mismatch e"
  by (auto simp: existence_errors_def is_count_mismatch_def msg_entry_missing_def js_def
      split: if_splits)

lemma count_is_count: "is_count_mismatch (msg_count_mismatch n m)"
  by (simp add: is_count_mismatch_def msg_count_mismatch_def js_def)

lemma filter_concat_none:
  "(\<And>x e. e \<in> set (f x) \<Longrightarrow> \<not> P e) \<Longrightarrow> filter P (concat (map f xs)) = []"
  by (induction xs) (auto simp: filter_empty_conv)

lemma format_errors_ok:
  "ends_with s (js ''.md'') \<Longrightarrow> \<not> ends_with s (js ''/'') \<Longrightarrow> format_errors (JStr s) = []"
  by (simp add: format_errors_def)

lemma existence_errors_ok:
  "file_exists h (resolve h s) \<Longrightarrow> existence_errors h (JStr s) = []"
  by (simp add: existence_errors_def)

text \<open>
  Claim C6. When the manifest is in use (the manifest file exists and parses, and its
  \<^verbatim>\<open>agents\<close> field is an array \<open>entries\<close>) and the number of entries differs from the
  number of descriptor files on disk, whichever is larger, the errors of
  \<^verbatim>\<open>validatePluginAgents\<close> hold exactly one count-mismatch error, and that error states
  both counts in decimal. When the sizes are equal there is no count-mismatch error, and
  when moreover every entry is a string that ends with \<^verbatim>\<open>.md\<close>, does not end with a path
  separator and resolves to an existing file, there is no error at all.
\<close>

theorem manifest_count_check:
  assumes "plugin_exists h" and "plugin_json h = Inr plugin"
    and "get_prop plugin (js ''agents'') = Inr (Some (JArr entries))"
  shows "\<exists>errs. validatePluginAgents h agentFiles = Inr \<lparr>a_errors = errs, a_warnings = []\<rparr> \<and>
           (length entries \<noteq> length agentFiles \<longrightarrow>
              filter is_count_mismatch errs
                = [msg_count_mismatch (length entries) (length agentFiles)] \<and>
              (\<exists>a b c. msg_count_mismatch (length entries) (length agentFiles)
                 = a @ show_nat (length entries) @ b @ show_nat (length agentFiles) @ c)) \<and>
           (length entries = length agentFiles \<longrightarrow> filter is_count_mismatch errs = []) \<and>
           (length entries = length agentFiles \<and>
            (\<forall>e \<in> set entries. \<exists>s. e = JStr s \<and> ends_with s (js ''.md'')
                \<and> \<not> ends_with s (js ''/'') \<and> file_exists h (resolve h s)) \<longrightarrow> errs = [])"
proof -
  let ?errs = "concat (map format_errors entries)
       @ (if length entries \<noteq> length agentFiles
          then [msg_count_mismatch (length entries) (length agentFiles)] else [])
       @ concat (map (existence_errors h) entries)"
  have run: "validatePluginAgents h agentFiles = Inr \<lparr>a_errors = ?errs, a_warnings = []\<rparr>"
    using assms by (simp add: validatePluginAgents_def)
  have f1: "filter is_count_mismatch (concat (map format_errors entries)) = []"
    by (rule filter_concat_none) (rule format_errors_not_count)
  have f2: "filter is_count_mismatch (concat (map (existence_errors h) entries)) = []"
    by (rule filter_concat_none) (rule existence_errors_not_count)
  have a: "length entries \<noteq> length agentFiles \<longrightarrow>
      filter is_count_mismatch ?errs
        = [msg_count_mismatch (length entries) (length agentFiles)]"
    using f1 f2 by (simp add: count_is_count)
  have a': "\<exists>a b c. msg_count_mismatch (length entries) (length agentFiles)
                 = a @ show_nat (length entries) @ b @ show_nat (length agentFiles) @ c"
    unfolding msg_count_mismatch_def
    by (metis append.assoc)
  have b: "length entries = length agentFiles \<longrightarrow> filter is_count_mismatch ?errs = []"
    using f1 f2 by simp
  have c: "length entries = length agentFiles \<and>
            (\<forall>e \<in> set entries. \<exists>s. e = JStr s \<and> ends_with s (js ''.md'')
                \<and> \<not> ends_with s (js ''/'') \<and> file_exists h (resolve h s)) \<longrightarrow> ?errs = []"
  proof
    assume h: "length entries = length agentFiles \<and>
            (\<forall>e \<in> set entries. \<exists>s. e = JStr s \<and> ends_with s (js ''.md'')
                \<and> \<not> ends_with s (js ''/'') \<and> file_exists h (resolve h s))"
    then have "\<forall>e \<in> set entries. format_errors e = []"
      and "\<forall>e \<in> set entries. existence_errors h e = []"
      by (auto simp: format_errors_ok existence_errors_ok)
    then show "?errs = []" using h by simp
  qed
  from run a a' b c show ?thesis by blast
qed

theorem manifest_count_check_witness:
  "plugin_exists \<lparr>plugin_exists = True,
       plugin_json = Inr (JObj [(js ''agents'',
          JArr [JStr (js ''agents/a.md''), JStr (js ''agents/b.md''), JStr (js ''agents/c.md'')])]),
       resolve = (\<lambda>e. js ''/plugin/'' @ e), file_exists = (\<lambda>p. True)\<rparr> \<and>
   validatePluginAgents \<lparr>plugin_exists = True,
       plugin_json = Inr (JObj [(js ''agents'',
          JArr [JStr (js ''agents/a.md''), JStr (js ''agents/b.md''), JStr (js ''agents/c.md'')])]),
       resolve = (\<lambda>e. js ''/plugin/'' @ e), file_exists = (\<lambda>p. True)\<rparr>
     [js ''a.md'', js ''b.md'', js ''c.md'', js ''d.md'']
     = Inr \<lparr>a_errors = [msg_count_mismatch 3 4], a_warnings = []\<rparr> \<and>
   msg_count_mismatch 3 4
     = js ''plugin.json '' @ [0x58F0, 0x660E] @ js '' 3 '' @ [0x4E2A] @ js '' agents''
         @ [0xFF0C, 0x5B9E, 0x9645, 0x76EE, 0x5F55, 0x6709] @ js '' 4 '' @ [0x4E2A] \<and>
   validatePluginAgents \<lparr>plugin_exists = True,
       plugin_json = Inr (JObj [(js ''agents'',
          JArr [JStr (js ''agents/a.md''), JStr (js ''agents/b.md''), JStr (js ''agents/c.md'')])]),
       resolve = (\<lambda>e. js ''/plugin/'' @ e), file_exists = (\<lambda>p. True)\<rparr>
     [js ''a.md'', js ''b.md'', js ''c.md'']
     = Inr \<lparr>a_errors = [], a_warnings = []\<rparr>"
  using manifest_count_check [of
      "\<lparr>plugin_exists = True,
       plugin_json = Inr (JObj [(js ''agents'',
          JArr [JStr (js ''agents/a.md''), JStr (js ''agents/b.md''), JStr (js ''agents/c.md'')])]),
       resolve = (\<lambda>e. js ''/plugin/'' @ e), file_exists = (\<lambda>p. True)\<rparr>"
      "JObj [(js ''agents'',
          JArr [JStr (js ''agents/a.md''), JStr (js ''agents/b.md''), JStr (js ''agents/c.md'')])]"
      "[JStr (js ''agents/a.md''), JStr (js ''agents/b.md''), JStr (js ''agents/c.md'')]"
      "[js ''a.md'', js ''b.md'', js ''c.md'', js ''d.md'']"]
  by (simp add: validatePluginAgents_def format_errors_def existence_errors_def ends_with_def
      suffix_to_prefix msg_count_mismatch_def show_nat.simps js_def)

end
